theory Spec2Isabelle
  imports Complex_Main "HOL-Library.Char_ord" "HOL-Library.AList"
begin

section \<open>Strings and paths\<close>

text \<open>
  A Python \<open>str\<close> is modelled as a \<open>string\<close>, one \<open>char\<close> per code point; HOL's
  \<open>char\<close> has 256 values, so the model covers the code points below 256 (ASCII and
  Latin-1).  \<open>newline\<close> is the character written \<^verbatim>\<open>\n\<close> in the source.
\<close>

definition newline :: char where
  "newline = CHR 0x0A"

text \<open>The character class \<^verbatim>\<open>[a-zA-Z0-9]\<close> of the regular expression at line 25.\<close>

definition is_alnum :: "char \<Rightarrow> bool" where
  "is_alnum c \<longleftrightarrow>
     (CHR ''a'' \<le> c \<and> c \<le> CHR ''z'') \<or> (CHR ''A'' \<le> c \<and> c \<le> CHR ''Z'') \<or>
     (CHR ''0'' \<le> c \<and> c \<le> CHR ''9'')"

text \<open>The character class \<^verbatim>\<open>[a-z0-9]\<close> of the specification's pattern.\<close>

definition is_lower_alnum :: "char \<Rightarrow> bool" where
  "is_lower_alnum c \<longleftrightarrow>
     (CHR ''a'' \<le> c \<and> c \<le> CHR ''z'') \<or> (CHR ''0'' \<le> c \<and> c \<le> CHR ''9'')"

text \<open>
  \<^verbatim>\<open>str.lower()\<close> on one code point below 256: the capitals \<open>A\<close> to \<open>Z\<close> (65 to 90) and
  the Latin-1 capitals (192 to 222 without the multiplication sign 215) move up by 32;
  every other code point is kept.
\<close>

definition lower_char :: "char \<Rightarrow> char" where
  "lower_char c =
     (let n = (of_char c :: nat) in
      if (65 \<le> n \<and> n \<le> 90) \<or> (192 \<le> n \<and> n \<le> 222 \<and> n \<noteq> 215)
      then char_of (n + 32) else c)"

definition lower :: "string \<Rightarrow> string" where
  "lower s = map lower_char s"

text \<open>
  The code points below 256 that \<^verbatim>\<open>str.strip()\<close> removes: tab to carriage return (9 to
  13), the separators 28 to 31, the space 32, next line 133 and the no-break space 160.
\<close>

definition is_whitespace :: "char \<Rightarrow> bool" where
  "is_whitespace c \<longleftrightarrow>
     (let n = (of_char c :: nat) in
      (9 \<le> n \<and> n \<le> 13) \<or> (28 \<le> n \<and> n \<le> 32) \<or> n = 133 \<or> n = 160)"

definition strip :: "string \<Rightarrow> string" where
  "strip s = rev (dropWhile is_whitespace (rev (dropWhile is_whitespace s)))"

text \<open>\<^verbatim>\<open>re.sub(r"[^a-zA-Z0-9]", " ", s)\<close>: every other character becomes a space.\<close>

definition sub_non_alnum :: "string \<Rightarrow> string" where
  "sub_non_alnum s = map (\<lambda>c. if is_alnum c then c else CHR '' '') s"

text \<open>
  \<^verbatim>\<open>re.sub(r" {2,}", " ", s)\<close>: every maximal run of two or more spaces becomes one
  space.  The function drops a space that is followed by a space, which keeps exactly
  the last space of each run.
\<close>

fun sub_space_runs :: "string \<Rightarrow> string" where
  "sub_space_runs (a # b # cs) =
     (if a = CHR '' '' \<and> b = CHR '' '' then sub_space_runs (b # cs)
      else a # sub_space_runs (b # cs))"
| "sub_space_runs cs = cs"

text \<open>\<^verbatim>\<open>s.replace(" ", "_")\<close>.\<close>

definition replace_spaces :: "string \<Rightarrow> string" where
  "replace_spaces s = map (\<lambda>c. if c = CHR '' '' then CHR ''_'' else c) s"

text \<open>\<^verbatim>\<open>clean_column_name\<close> (lines 21 to 30), the five steps in the order of the source.\<close>

definition clean_column_name :: "string \<Rightarrow> string" where
  "clean_column_name column_name =
     replace_spaces (sub_space_runs (strip (sub_non_alnum (lower column_name))))"

text \<open>
  The pattern \<^verbatim>\<open>^[a-z0-9]+(_[a-z0-9]+)*$\<close> as its deterministic automaton.  The flag says
  whether the character just read was in \<^verbatim>\<open>[a-z0-9]\<close>: only then an underscore may
  follow and only then the string may end.
\<close>

fun canon_from :: "bool \<Rightarrow> string \<Rightarrow> bool" where
  "canon_from after_alnum [] = after_alnum"
| "canon_from after_alnum (c # cs) =
     (if is_lower_alnum c then canon_from True cs
      else if c = CHR ''_'' \<and> after_alnum then canon_from False cs
      else False)"

definition canonical :: "string \<Rightarrow> bool" where
  "canonical s = canon_from False s"

text \<open>\<^verbatim>\<open>s.endswith(suffix)\<close> and \<^verbatim>\<open>s.startswith("/")\<close>.\<close>

definition endswith :: "string \<Rightarrow> string \<Rightarrow> bool" where
  "endswith s suffix \<longleftrightarrow>
     length suffix \<le> length s \<and> drop (length s - length suffix) s = suffix"

definition starts_with_sep :: "string \<Rightarrow> bool" where
  "starts_with_sep b \<longleftrightarrow> (case b of [] \<Rightarrow> False | c # _ \<Rightarrow> c = CHR ''/'')"

text \<open>
  \<^verbatim>\<open>os.path.join(a, *p)\<close> of \<^verbatim>\<open>posixpath\<close>: a component that starts with the separator
  replaces what was joined so far; otherwise it is appended, after a separator unless
  the path is empty or already ends with one.
\<close>

definition path_join_step :: "string \<Rightarrow> string \<Rightarrow> string" where
  "path_join_step path b =
     (if starts_with_sep b then b
      else if path = [] \<or> endswith path ''/'' then path @ b
      else path @ ''/'' @ b)"

definition os_path_join :: "string \<Rightarrow> string list \<Rightarrow> string" where
  "os_path_join a p = foldl path_join_step a p"

text \<open>\<^verbatim>\<open>sep.join(xs)\<close> and \<^verbatim>\<open>s * n\<close> on strings.\<close>

fun str_join :: "string \<Rightarrow> string list \<Rightarrow> string" where
  "str_join sep [] = []"
| "str_join sep [x] = x"
| "str_join sep (x # y # ys) = x @ sep @ str_join sep (y # ys)"

definition str_times :: "string \<Rightarrow> nat \<Rightarrow> string" where
  "str_times s n = concat (replicate n s)"

text \<open>
  \<^verbatim>\<open>str.splitlines()\<close> restricted to the line feed, the only line boundary the
  source writes: the lines of a text, a final line feed ending the last line.
\<close>

fun lines_from :: "string \<Rightarrow> string \<Rightarrow> string list" where
  "lines_from cur [] = (if cur = [] then [] else [cur])"
| "lines_from cur (c # cs) =
     (if c = newline then cur # lines_from [] cs else lines_from (cur @ [c]) cs)"

definition splitlines :: "string \<Rightarrow> string list" where
  "splitlines s = lines_from [] s"

section \<open>Errors, data frames and effects\<close>

text \<open>
  The exceptions the modelled code can raise.  \<open>IOFailure\<close> stands for whatever
  \<^verbatim>\<open>os.listdir\<close> or \<^verbatim>\<open>pandas.read_csv\<close> raise on a missing directory or an unreadable
  file.
\<close>

datatype error =
    KeyError string
  | IndexError
  | ValueError string
  | AttributeError string
  | IOFailure string

text \<open>
  The storage types \<^verbatim>\<open>pandas.read_csv\<close> gives a column.  The comparison
  \<^verbatim>\<open>dtype == "int"\<close> of line 43 holds for \<open>Int64\<close> alone (the string \<^verbatim>\<open>"int"\<close> names the
  signed 64-bit integer type where the C long has 64 bits).
\<close>

datatype dtype = Int64 | UInt64 | Float64 | Bool | Object

text \<open>
  A \<^verbatim>\<open>Series\<close> is a labelled column, a \<^verbatim>\<open>DataFrame\<close> the list of its columns from left
  to right; all columns of a frame have the same length, the number of rows.  Column
  labels may repeat.  The cell type \<open>'v\<close> is a parameter; its equality is the one
  \<^verbatim>\<open>drop_duplicates\<close> compares cells with.
\<close>

record 'v series =
  name :: string
  dtype :: dtype
  cells :: "'v list"

type_synonym 'v dataframe = "'v series list"

text \<open>The cells of the frames the code builds: a generated id, a date, or a source cell.\<close>

datatype 'v cell = Int_cell int | Str_cell string | Val 'v

text \<open>
  \<^verbatim>\<open>to_csv(index=False)\<close> writes the header and then one line per row; the record keeps
  the fields of every line unformatted.
\<close>

record 'v csv =
  header :: "string list"
  rows :: "'v list list"

definition nrows :: "'v dataframe \<Rightarrow> nat" where
  "nrows df = (case df of [] \<Rightarrow> 0 | s # _ \<Rightarrow> length (cells s))"

definition row_at :: "'v dataframe \<Rightarrow> nat \<Rightarrow> 'v list" where
  "row_at df i = map (\<lambda>s. cells s ! i) df"

definition frame_rows :: "'v dataframe \<Rightarrow> 'v list list" where
  "frame_rows df = map (row_at df) [0..<nrows df]"

definition to_csv :: "'v dataframe \<Rightarrow> 'v csv" where
  "to_csv df = \<lparr>header = map name df, rows = frame_rows df\<rparr>"

text \<open>
  \<^verbatim>\<open>df[label]\<close> with one label: the column when exactly one has the label, the frame of
  all columns with the label when several have, \<^verbatim>\<open>KeyError\<close> when none has.
\<close>

datatype 'v selection = One_column "'v series" | Some_columns "'v dataframe"

definition getitem :: "'v dataframe \<Rightarrow> string \<Rightarrow> error + 'v selection" where
  "getitem df label =
     (case filter (\<lambda>s. name s = label) df of
        [] \<Rightarrow> Inl (KeyError label)
      | [s] \<Rightarrow> Inr (One_column s)
      | ss \<Rightarrow> Inr (Some_columns ss))"

text \<open>
  \<^verbatim>\<open>df[labels]\<close> with a list of labels: for each label in turn, every column that has
  it; \<^verbatim>\<open>KeyError\<close> when a label has no column.
\<close>

fun getitem_list :: "'v dataframe \<Rightarrow> string list \<Rightarrow> error + 'v dataframe" where
  "getitem_list df [] = Inr []"
| "getitem_list df (label # labels) =
     (case filter (\<lambda>s. name s = label) df of
        [] \<Rightarrow> Inl (KeyError label)
      | ss \<Rightarrow> (case getitem_list df labels of Inl e \<Rightarrow> Inl e | Inr rest \<Rightarrow> Inr (ss @ rest)))"

text \<open>
  \<^verbatim>\<open>drop_duplicates(keep="first")\<close>: a value is kept when it was not seen before.
\<close>

fun drop_duplicates_seen :: "'a list \<Rightarrow> 'a list \<Rightarrow> 'a list" where
  "drop_duplicates_seen seen [] = []"
| "drop_duplicates_seen seen (x # xs) =
     (if x \<in> set seen then drop_duplicates_seen seen xs
      else x # drop_duplicates_seen (x # seen) xs)"

definition drop_duplicates :: "'a list \<Rightarrow> 'a list" where
  "drop_duplicates xs = drop_duplicates_seen [] xs"

text \<open>On a frame, \<^verbatim>\<open>drop_duplicates\<close> compares whole rows.\<close>

definition frame_drop_duplicates :: "'v dataframe \<Rightarrow> 'v dataframe" where
  "frame_drop_duplicates df =
     (let kept = drop_duplicates (frame_rows df)
      in map (\<lambda>(j, s). s\<lparr>cells := map (\<lambda>r. r ! j) kept\<rparr>) (zip [0..<length df] df))"

text \<open>
  \<^verbatim>\<open>DataFrame.insert(loc, column, value)\<close>: \<^verbatim>\<open>ValueError\<close> when the frame already has a
  column with this label (\<^verbatim>\<open>allow_duplicates\<close> is not given), else the new column stands
  at position \<open>loc\<close>.
\<close>

definition insert_column ::
  "'v dataframe \<Rightarrow> nat \<Rightarrow> string \<Rightarrow> dtype \<Rightarrow> 'v list \<Rightarrow> error + 'v dataframe" where
  "insert_column df loc column dt vs =
     (if column \<in> set (map name df)
      then Inl (ValueError (''cannot insert '' @ column @ '', already exists''))
      else Inr (take loc df @ [\<lparr>name = column, dtype = dt, cells = vs\<rparr>] @ drop loc df))"

definition as_values :: "'v dataframe \<Rightarrow> 'v cell dataframe" where
  "as_values df = map (\<lambda>s. \<lparr>name = name s, dtype = dtype s, cells = map Val (cells s)\<rparr>) df"

text \<open>
  What a call leaves on the file system, in the order it happens.  The helper
  \<^verbatim>\<open>create_folder_if_not\<close> is imported from a module that is not among the sources; a
  call of it is recorded as \<open>Create_folder\<close>.  A written file is text, a frame
  written by \<^verbatim>\<open>to_csv\<close>, or a document written by \<^verbatim>\<open>json.dumps\<close>.
\<close>

datatype json = JString string | JArray "json list" | JObject "(string \<times> json) list"

datatype 'v file_content = Text string | Csv "'v cell csv" | Json json

datatype 'v effect = Create_folder string | Write_file string "'v file_content"

text \<open>
  What the code reads from its environment: directory listings, file existence and
  parsed CSV files.  The k-th call of \<^verbatim>\<open>datetime.today()\<close> within a run reads
  \<open>today k\<close>.
\<close>

record datetime =
  year :: nat
  month :: nat
  day :: nat

record 'v os =
  listdir :: "string \<Rightarrow> error + string list"
  path_exists :: "string \<Rightarrow> bool"
  read_csv :: "string \<Rightarrow> error + 'v dataframe"
  today :: "nat \<Rightarrow> datetime"

text \<open>\<^verbatim>\<open>strftime("%d/%m/%y")\<close>: day, month and year of the century, two digits each.\<close>

definition digit_char :: "nat \<Rightarrow> char" where
  "digit_char n = char_of (48 + n mod 10)"

definition two_digits :: "nat \<Rightarrow> string" where
  "two_digits n = [digit_char (n div 10), digit_char n]"

definition strftime_dmy :: "datetime \<Rightarrow> string" where
  "strftime_dmy t = two_digits (day t) @ ''/'' @ two_digits (month t) @ ''/'' @ two_digits (year t mod 100)"

section \<open>The operations of \<^verbatim>\<open>csv_parser_utils.py\<close>\<close>

text \<open>
  Column metadata: a Python dict from the original column name to its entry, kept as an
  association list in insertion order (the keys of a dict are distinct).  Assigning to
  a key is \<open>AList.update\<close>, a lookup is \<open>map_of\<close>.
\<close>

record col_meta =
  updated_col_name :: string
  metric :: bool
  dimension :: bool

type_synonym column_metadata = "(string \<times> col_meta) list"

subsection \<open>\<^verbatim>\<open>format_df_columns\<close> (lines 11 to 34)\<close>

definition rename_columns :: "'v dataframe \<Rightarrow> (string \<times> string) list \<Rightarrow> 'v dataframe" where
  "rename_columns df mapper =
     map (\<lambda>s. case map_of mapper (name s) of None \<Rightarrow> s | Some n \<Rightarrow> s\<lparr>name := n\<rparr>) df"

definition format_df_columns ::
  "'v dataframe \<Rightarrow> column_metadata \<Rightarrow> 'v dataframe \<times> (string \<times> string) list" where
  "format_df_columns df column_metadata =
     (let user_specified_column_name =
            map (\<lambda>(old_column, mapping). (old_column, updated_col_name mapping)) column_metadata;
          renamed = rename_columns df user_specified_column_name;
          old_column_mapping = map (\<lambda>col. (col, clean_column_name col)) (map name renamed)
      in (map (\<lambda>s. s\<lparr>name := clean_column_name (name s)\<rparr>) renamed, old_column_mapping))"

subsection \<open>\<^verbatim>\<open>guess_metrics_and_columns\<close> (lines 37 to 55)\<close>

text \<open>
  The loop of lines 42 to 55 over the column labels.  \<^verbatim>\<open>df[column]\<close> is a frame when
  the label repeats, and a frame has no attribute \<^verbatim>\<open>dtype\<close>.
\<close>

fun guess_columns ::
  "'v dataframe \<Rightarrow> string list \<Rightarrow> column_metadata \<Rightarrow> error + column_metadata" where
  "guess_columns df [] column_type_dict = Inr column_type_dict"
| "guess_columns df (column # columns) column_type_dict =
     (case getitem df column of
        Inl e \<Rightarrow> Inl e
      | Inr (Some_columns ss) \<Rightarrow> Inl (AttributeError ''dtype'')
      | Inr (One_column s) \<Rightarrow>
          (if dtype s = Int64
           then guess_columns df columns
                  (AList.update (name s)
                     \<lparr>updated_col_name = name s, metric = True, dimension = False\<rparr>
                     column_type_dict)
           else guess_columns df columns
                  (AList.update (name s)
                     \<lparr>updated_col_name = name s, metric = False, dimension = True\<rparr>
                     column_type_dict)))"

definition guess_metrics_and_columns ::
  "'v os \<Rightarrow> string \<Rightarrow> string \<Rightarrow> string \<Rightarrow> error + column_metadata" where
  "guess_metrics_and_columns os tmp_base_path token filename =
     (let file_path = os_path_join tmp_base_path [token, filename]
      in case read_csv os file_path of
           Inl e \<Rightarrow> Inl e
         | Inr df \<Rightarrow> guess_columns df (map name df) [])"

subsection \<open>\<^verbatim>\<open>write_dimensions_to_ingest_folder\<close> (lines 90 to 112)\<close>

definition dimension_grammar_data :: "string \<Rightarrow> string" where
  "dimension_grammar_data dimension_name =
     ''PK,Index'' @ [newline] @ ''string,string'' @ [newline] @ dimension_name @ ''_id,'' @ dimension_name"

text \<open>Lines 105 to 108: the de-duplicated column with the id column inserted in front.\<close>

definition dimension_frame :: "'v dataframe \<Rightarrow> string \<Rightarrow> error + 'v cell dataframe" where
  "dimension_frame df dimension_name =
     (case getitem df dimension_name of
        Inl e \<Rightarrow> Inl e
      | Inr selected \<Rightarrow>
          (let column_df =
                 (case selected of
                    One_column s \<Rightarrow> [s\<lparr>cells := drop_duplicates (cells s)\<rparr>]
                  | Some_columns ss \<Rightarrow> frame_drop_duplicates ss)
           in insert_column (as_values column_df) 0 (dimension_name @ ''_id'') Int64
                (map Int_cell [1..int (nrows column_df)])))"

text \<open>
  The loop of lines 96 to 112.  The result is what was written and the exception that
  ended the loop, if any; the grammar file of a dimension is written before its column
  is looked up.
\<close>

fun write_dimensions ::
  "'v dataframe \<Rightarrow> string \<Rightarrow> string list \<Rightarrow> 'v effect list \<times> error option" where
  "write_dimensions df dimensions_base_path [] = ([], None)"
| "write_dimensions df dimensions_base_path (dimension_name # rest) =
     (let grammar =
            Write_file (os_path_join dimensions_base_path [dimension_name @ ''-dimension.grammar.csv''])
              (Text (dimension_grammar_data dimension_name))
      in case dimension_frame df dimension_name of
           Inl e \<Rightarrow> ([grammar], Some e)
         | Inr column_df \<Rightarrow>
             (let (effects, failure) = write_dimensions df dimensions_base_path rest
              in (grammar #
                  Write_file (os_path_join dimensions_base_path [dimension_name @ ''-dimension.data.csv''])
                    (Csv (to_csv column_df)) #
                  effects, failure)))"

definition write_dimensions_to_ingest_folder ::
  "'v dataframe \<Rightarrow> string list \<Rightarrow> string \<Rightarrow> 'v effect list \<times> error option" where
  "write_dimensions_to_ingest_folder df dimensions ingest_folder_path =
     (let dimensions_base_path = os_path_join ingest_folder_path [''dimensions''];
          (effects, failure) = write_dimensions df dimensions_base_path dimensions
      in (Create_folder dimensions_base_path # effects, failure))"

subsection \<open>\<^verbatim>\<open>write_events_to_ingest_folder\<close> (lines 115 to 139)\<close>

definition event_grammar_data :: "string list \<Rightarrow> string \<Rightarrow> string" where
  "event_grammar_data dimensions metric_name =
     '','' @ str_join '','' dimensions @ '','' @ [newline] @
     '','' @ str_join '','' dimensions @ '','' @ [newline] @
     ''date,'' @ str_times ''string,'' (length dimensions) @ ''integer'' @ [newline] @
     ''date,'' @ str_join '','' dimensions @ '','' @ metric_name @ [newline] @
     ''timeDimension,'' @ str_times ''dimension,'' (length dimensions) @ ''metric'' @ [newline]"

text \<open>
  Lines 132 to 136: the selected columns with the date column inserted in front; the
  date is one string, repeated for every row of the frame.
\<close>

definition event_frame ::
  "'v dataframe \<Rightarrow> string list \<Rightarrow> string \<Rightarrow> datetime \<Rightarrow> error + 'v cell dataframe" where
  "event_frame df dimensions metric_name now =
     (let headers = dimensions @ [metric_name]
      in case getitem_list df headers of
           Inl e \<Rightarrow> Inl e
         | Inr event_df \<Rightarrow>
             insert_column (as_values event_df) 0 ''date'' Object
               (replicate (nrows df) (Str_cell (strftime_dmy now))))"

text \<open>
  The loop of lines 121 to 139; \<open>k\<close> counts the calls of \<^verbatim>\<open>datetime.today()\<close> made so
  far, one for each metric whose columns were found.
\<close>

fun write_events ::
  "'v os \<Rightarrow> 'v dataframe \<Rightarrow> string list \<Rightarrow> string \<Rightarrow> nat \<Rightarrow> string list \<Rightarrow>
   'v effect list \<times> error option" where
  "write_events os df dimensions events_base_path k [] = ([], None)"
| "write_events os df dimensions events_base_path k (metric_name # rest) =
     (let grammar =
            Write_file (os_path_join events_base_path [metric_name @ ''-event.grammar.csv''])
              (Text (event_grammar_data dimensions metric_name))
      in case event_frame df dimensions metric_name (today os k) of
           Inl e \<Rightarrow> ([grammar], Some e)
         | Inr event_df \<Rightarrow>
             (let (effects, failure) =
                    write_events os df dimensions events_base_path (Suc k) rest
              in (grammar #
                  Write_file (os_path_join events_base_path [metric_name @ ''-event.data.csv''])
                    (Csv (to_csv event_df)) #
                  effects, failure)))"

definition write_events_to_ingest_folder ::
  "'v os \<Rightarrow> 'v dataframe \<Rightarrow> string list \<Rightarrow> string list \<Rightarrow> string \<Rightarrow> string \<Rightarrow>
   'v effect list \<times> error option" where
  "write_events_to_ingest_folder os df dimensions metrics program_name ingest_folder_path =
     (let events_base_path = os_path_join ingest_folder_path [''programs'', program_name];
          (effects, failure) = write_events os df dimensions events_base_path 0 metrics
      in (Create_folder events_base_path # effects, failure))"

subsection \<open>\<^verbatim>\<open>write_config_to_ingest_folder\<close> (lines 142 to 168)\<close>

definition config_template :: "string \<Rightarrow> string \<Rightarrow> json" where
  "config_template program_name program_description =
     JObject
       [(''globals'', JObject [(''onlyCreateWhitelisted'', JString ''true'')]),
        (''dimensions'',
           JObject
             [(''namespace'', JString ''dimensions''),
              (''fileNameFormat'', JString ''${dimensionName}.${index}.dimensions.data.csv''),
              (''input'', JObject [(''files'', JString ''./ingest/dimensions'')])]),
        (''programs'',
           JArray
             [JObject
                [(''name'', JString program_name),
                 (''namespace'', JString program_name),
                 (''description'', JString program_description),
                 (''shouldIngestToDB'', JString ''true''),
                 (''input'', JObject [(''files'', JString (''./ingest/programs/'' @ program_name))]),
                 (''./output'',
                    JObject [(''location'', JString (''./output/programs/'' @ program_name))]),
                 (''dimensions'',
                    JObject [(''whitelisted'', JArray []), (''blacklisted'', JArray [])])]])]"

definition write_config_to_ingest_folder :: "string \<Rightarrow> string \<Rightarrow> string \<Rightarrow> 'v effect list" where
  "write_config_to_ingest_folder program_name program_description ingest_folder_path =
     [Write_file (os_path_join ingest_folder_path [''config.json''])
        (Json (config_template program_name program_description))]"

text \<open>Reading a member of a JSON object, and a path of members.\<close>

fun json_member :: "json \<Rightarrow> string \<Rightarrow> json option" where
  "json_member (JObject members) key = map_of members key"
| "json_member _ key = None"

fun json_at :: "json \<Rightarrow> string list \<Rightarrow> json option" where
  "json_at j [] = Some j"
| "json_at j (key # keys) =
     (case json_member j key of None \<Rightarrow> None | Some j' \<Rightarrow> json_at j' keys)"

subsection \<open>\<^verbatim>\<open>generate_ingest_files\<close> (lines 58 to 87)\<close>

text \<open>The loop of lines 72 to 77 with its two lists.\<close>

fun split_columns ::
  "(string \<times> string) list \<Rightarrow> column_metadata \<Rightarrow> string list \<Rightarrow> string list \<Rightarrow>
   error + (string list \<times> string list)" where
  "split_columns column_mapping [] metrics dimensions = Inr (metrics, dimensions)"
| "split_columns column_mapping ((cols, entry) # rest) metrics dimensions =
     (case map_of column_mapping (updated_col_name entry) of
        None \<Rightarrow> Inl (KeyError (updated_col_name entry))
      | Some normalized \<Rightarrow>
          (if metric entry
           then split_columns column_mapping rest (metrics @ [normalized]) dimensions
           else split_columns column_mapping rest metrics (dimensions @ [normalized])))"

definition generate_ingest_files ::
  "'v os \<Rightarrow> string \<Rightarrow> string \<Rightarrow> column_metadata \<Rightarrow> string \<Rightarrow> string \<Rightarrow>
   'v effect list \<times> (error + (string \<times> string list) list)" where
  "generate_ingest_files os tmp_base_path token column_metadata program_name program_desc =
     (let folder_path = os_path_join tmp_base_path [token]
      in case listdir os folder_path of
           Inl e \<Rightarrow> ([], Inl e)
         | Inr files \<Rightarrow>
         (case filter (\<lambda>file. endswith file ''.csv'') files of
           [] \<Rightarrow> ([], Inl IndexError)
         | file # _ \<Rightarrow>
         (case read_csv os (os_path_join folder_path [file]) of
           Inl e \<Rightarrow> ([], Inl e)
         | Inr raw \<Rightarrow>
         (let (df, column_mapping) = format_df_columns raw column_metadata
          in case split_columns column_mapping column_metadata [] [] of
           Inl e \<Rightarrow> ([], Inl e)
         | Inr (metrics, dimensions) \<Rightarrow>
         (let ingest_folder_path = os_path_join folder_path [''ingest''];
              (written1, failure1) =
                 write_dimensions_to_ingest_folder df dimensions ingest_folder_path
          in case failure1 of
           Some e \<Rightarrow> (written1, Inl e)
         | None \<Rightarrow>
         (let (written2, failure2) =
                 write_events_to_ingest_folder os df dimensions metrics program_name
                   ingest_folder_path
          in case failure2 of
           Some e \<Rightarrow> (written1 @ written2, Inl e)
         | None \<Rightarrow>
             (written1 @ written2 @
              write_config_to_ingest_folder program_name program_desc ingest_folder_path,
              Inr [(''dimension'', dimensions), (''metrics'', metrics)])))))))"

subsection \<open>\<^verbatim>\<open>get_ingest_folder_path\<close> and \<^verbatim>\<open>fetch_file_content\<close> (lines 176 to 208)\<close>

definition get_ingest_folder_path :: "'v os \<Rightarrow> string \<Rightarrow> string \<Rightarrow> error + string" where
  "get_ingest_folder_path os tmp_base_path token =
     (let program_folder_path = os_path_join tmp_base_path [token, ''ingest/programs'']
      in case listdir os program_folder_path of
           Inl e \<Rightarrow> Inl e
         | Inr [] \<Rightarrow> Inl IndexError
         | Inr (program_name # _) \<Rightarrow> Inr (os_path_join program_folder_path [program_name]))"

text \<open>\<^verbatim>\<open>df.head()\<close>: the first five rows.\<close>

definition head_frame :: "'v dataframe \<Rightarrow> 'v dataframe" where
  "head_frame df = map (\<lambda>s. s\<lparr>cells := take 5 (cells s)\<rparr>) df"

text \<open>
  \<^verbatim>\<open>to_json(orient="records")\<close>: one object per row, from column label to cell; it
  raises \<^verbatim>\<open>ValueError\<close> when a label repeats.
\<close>

definition to_json_records :: "'v dataframe \<Rightarrow> error + (string \<times> 'v) list list" where
  "to_json_records df =
     (if distinct (map name df)
      then Inr (map (\<lambda>r. zip (map name df) r) (frame_rows df))
      else Inl (ValueError ''DataFrame columns must be unique for orient=records''))"

text \<open>
  \<^verbatim>\<open>fetch_file_content\<close>: the result \<open>Inr None\<close> is Python's \<^verbatim>\<open>None\<close>, \<open>Inl\<close> an
  exception that leaves the function.
\<close>

definition fetch_file_content ::
  "'v os \<Rightarrow> string \<Rightarrow> string \<Rightarrow> string \<Rightarrow> error + (string \<times> 'v) list list option" where
  "fetch_file_content os tmp_base_path token filename =
     (case
        (if endswith filename ''event.data.csv'' \<or> endswith filename ''event.grammar.csv''
         then (case get_ingest_folder_path os tmp_base_path token of
                 Inl e \<Rightarrow> Inl e
               | Inr folder \<Rightarrow> Inr (Some (os_path_join folder [filename])))
         else if endswith filename ''dimension.data.csv'' \<or>
                 endswith filename ''dimension.grammar.csv''
         then Inr (Some (os_path_join tmp_base_path [token, ''ingest'', ''dimensions'', filename]))
         else Inr None)
      of
        Inl e \<Rightarrow> Inl e
      | Inr None \<Rightarrow> Inr None
      | Inr (Some file_path) \<Rightarrow>
          (if \<not> path_exists os file_path then Inr None
           else (case read_csv os file_path of
                   Inl e \<Rightarrow> Inl e
                 | Inr df \<Rightarrow>
                     (case to_json_records (head_frame df) of
                        Inl e \<Rightarrow> Inl e
                      | Inr json_response \<Rightarrow> Inr (Some json_response)))))"

section \<open>Notions used to state the properties\<close>

text \<open>
  The cells \<^verbatim>\<open>pandas.read_csv\<close> produces, and the cells each storage type holds: a
  signed or unsigned 64-bit integer, a floating-point number or a missing value, a
  truth value, or (as an object) a string or a missing value.
\<close>

datatype scalar = Integer int | Floating real | Str string | Boolean bool | Missing

fun parses_as_integer :: "scalar \<Rightarrow> bool" where
  "parses_as_integer (Integer n) = True"
| "parses_as_integer _ = False"

fun fits :: "dtype \<Rightarrow> scalar \<Rightarrow> bool" where
  "fits Int64 (Integer n) = (- (2 ^ 63) \<le> n \<and> n < 2 ^ 63)"
| "fits UInt64 (Integer n) = (0 \<le> n \<and> n < 2 ^ 64)"
| "fits Float64 (Floating x) = True"
| "fits Float64 Missing = True"
| "fits Bool (Boolean b) = True"
| "fits Object (Str s) = True"
| "fits Object Missing = True"
| "fits _ _ = False"

text \<open>The entry \<^verbatim>\<open>guess_metrics_and_columns\<close> stores for a column.\<close>

definition guessed_entry :: "'v series \<Rightarrow> string \<times> col_meta" where
  "guessed_entry s =
     (name s, \<lparr>updated_col_name = name s, metric = (dtype s = Int64),
                dimension = (dtype s \<noteq> Int64)\<rparr>)"

text \<open>
  The positions of a list at which a value occurs for the first time, in increasing
  order.
\<close>

definition first_occurrences :: "'a list \<Rightarrow> nat list" where
  "first_occurrences xs = filter (\<lambda>i. xs ! i \<notin> set (take i xs)) [0..<length xs]"

text \<open>Strings of lower-case letters, digits and spaces, and the inverse of \<open>replace_spaces\<close>.\<close>

definition spaced :: "string \<Rightarrow> bool" where
  "spaced s \<longleftrightarrow> list_all (\<lambda>c. is_lower_alnum c \<or> c = CHR '' '') s"

definition underscores_to_spaces :: "string \<Rightarrow> string" where
  "underscores_to_spaces s = map (\<lambda>c. if c = CHR ''_'' then CHR '' '' else c) s"

text \<open>The paths of the two files of a dimension and of a metric.\<close>

definition dimension_grammar_path :: "string \<Rightarrow> string \<Rightarrow> string" where
  "dimension_grammar_path ingest_folder_path d =
     os_path_join (os_path_join ingest_folder_path [''dimensions''])
       [d @ ''-dimension.grammar.csv'']"

definition dimension_data_path :: "string \<Rightarrow> string \<Rightarrow> string" where
  "dimension_data_path ingest_folder_path d =
     os_path_join (os_path_join ingest_folder_path [''dimensions''])
       [d @ ''-dimension.data.csv'']"

definition event_data_path :: "string \<Rightarrow> string \<Rightarrow> string \<Rightarrow> string" where
  "event_data_path ingest_folder_path program_name m =
     os_path_join (os_path_join ingest_folder_path [''programs'', program_name])
       [m @ ''-event.data.csv'']"

text \<open>A frame is well formed when all its columns have the length of the first.\<close>

definition well_formed :: "'v dataframe \<Rightarrow> bool" where
  "well_formed df \<longleftrightarrow> list_all (\<lambda>s. length (cells s) = nrows df) df"

text \<open>The column with a label, for a label that exactly one column has.\<close>

definition has_column :: "'v dataframe \<Rightarrow> string \<Rightarrow> 'v series \<Rightarrow> bool" where
  "has_column df label s \<longleftrightarrow> filter (\<lambda>t. name t = label) df = [s]"

definition column_of :: "'v dataframe \<Rightarrow> string \<Rightarrow> 'v series" where
  "column_of df label = hd (filter (\<lambda>t. name t = label) df)"

text \<open>
  The event data of a metric as the specification describes it: the header and, for
  every row of the table, the date followed by the row's dimension cells and its metric
  cell.
\<close>

definition event_csv :: "'v dataframe \<Rightarrow> string list \<Rightarrow> string \<Rightarrow> string \<Rightarrow> 'v cell csv" where
  "event_csv df dimensions m date =
     \<lparr>header = ''date'' # dimensions @ [m],
      rows = map (\<lambda>i. Str_cell date #
                      map (\<lambda>h. Val (cells (column_of df h) ! i)) (dimensions @ [m]))
               [0..<nrows df]\<rparr>"

section \<open>Example inputs\<close>

text \<open>
  The table of the specification's scenario (\<^verbatim>\<open>name,score\<close> with the rows \<^verbatim>\<open>Ada,10\<close>,
  \<^verbatim>\<open>Grace,10\<close>, \<^verbatim>\<open>Ada,7\<close>), a table with the boundary columns of the classifier, a table
  with a column labelled \<^verbatim>\<open>date\<close>, and an environment in which every directory lists
  \<open>entries\<close>, every file exists and parses to \<open>df\<close>, and the date is 4 November 2026.
\<close>

definition scenario_df :: "scalar dataframe" where
  "scenario_df =
     [\<lparr>name = ''name'', dtype = Object, cells = [Str ''Ada'', Str ''Grace'', Str ''Ada'']\<rparr>,
      \<lparr>name = ''score'', dtype = Int64, cells = [Integer 10, Integer 10, Integer 7]\<rparr>]"

definition boundary_df :: "scalar dataframe" where
  "boundary_df =
     [\<lparr>name = ''zero'', dtype = Int64, cells = [Integer 0]\<rparr>,
      \<lparr>name = ''negative'', dtype = Int64, cells = [Integer (- 3)]\<rparr>,
      \<lparr>name = ''ratio'', dtype = Float64, cells = [Floating 1]\<rparr>,
      \<lparr>name = ''big'', dtype = UInt64, cells = [Integer (2 ^ 63)]\<rparr>]"

definition dated_df :: "scalar dataframe" where
  "dated_df =
     [\<lparr>name = ''date'', dtype = Object, cells = [Str ''2024-01-01'']\<rparr>,
      \<lparr>name = ''score'', dtype = Int64, cells = [Integer 10]\<rparr>]"

text \<open>
  The table as read from a file with the header \<^verbatim>\<open>Date,Score\<close>, and the metadata the
  classifier returns for it.
\<close>

definition dated_metadata :: column_metadata where
  "dated_metadata =
     [(''Date'', \<lparr>updated_col_name = ''Date'', metric = False, dimension = True\<rparr>),
      (''Score'', \<lparr>updated_col_name = ''Score'', metric = True, dimension = False\<rparr>)]"

definition dated_raw :: "scalar dataframe" where
  "dated_raw =
     [\<lparr>name = ''Date'', dtype = Object, cells = [Str ''2024-01-01'']\<rparr>,
      \<lparr>name = ''Score'', dtype = Int64, cells = [Integer 10]\<rparr>]"

text \<open>
  The table as read from a file with the header \<^verbatim>\<open>First Name,first_name\<close>, the metadata
  the classifier returns for it, and the table after normalization: both labels
  become \<^verbatim>\<open>first_name\<close>.
\<close>

definition twin_raw :: "scalar dataframe" where
  "twin_raw =
     [\<lparr>name = ''First Name'', dtype = Object, cells = [Str ''Ada'', Str ''Ada'', Str ''Ada'']\<rparr>,
      \<lparr>name = ''first_name'', dtype = Object, cells = [Str ''Ada'', Str ''Bob'', Str ''Ada'']\<rparr>]"

definition twin_df :: "scalar dataframe" where
  "twin_df =
     [\<lparr>name = ''first_name'', dtype = Object, cells = [Str ''Ada'', Str ''Ada'', Str ''Ada'']\<rparr>,
      \<lparr>name = ''first_name'', dtype = Object, cells = [Str ''Ada'', Str ''Bob'', Str ''Ada'']\<rparr>]"

definition twin_metadata :: column_metadata where
  "twin_metadata =
     [(''First Name'', \<lparr>updated_col_name = ''First Name'', metric = False, dimension = True\<rparr>),
      (''first_name'', \<lparr>updated_col_name = ''first_name'', metric = False, dimension = True\<rparr>)]"

definition example_os :: "string list \<Rightarrow> scalar dataframe \<Rightarrow> scalar os" where
  "example_os entries df =
     \<lparr>listdir = (\<lambda>p. Inr entries), path_exists = (\<lambda>p. True), read_csv = (\<lambda>p. Inr df),
      today = (\<lambda>k. \<lparr>year = 2026, month = 11, day = 4\<rparr>)\<rparr>"

section \<open>Resolving the program directory\<close>

text \<open>
  Claim C7, as the code has it: when the programs directory can be listed,
  \<^verbatim>\<open>get_ingest_folder_path\<close> raises \<^verbatim>\<open>IndexError\<close> exactly when the listing is empty, and
  otherwise returns the path of the first listed entry, however many entries follow.
\<close>

theorem get_ingest_folder_path_first_entry:
  "listdir os (os_path_join tmp_base_path [token, ''ingest/programs'']) = Inr entries \<Longrightarrow>
   (entries = [] \<longrightarrow> get_ingest_folder_path os tmp_base_path token = Inl IndexError) \<and>
   (entries \<noteq> [] \<longrightarrow>
      get_ingest_folder_path os tmp_base_path token =
        Inr (os_path_join (os_path_join tmp_base_path [token, ''ingest/programs''])
               [hd entries]))"
  by (cases entries) (simp_all add: get_ingest_folder_path_def)

theorem get_ingest_folder_path_first_entry_witness:
  "listdir (example_os [''p'', ''q''] []) (os_path_join ''tmp'' [''t'', ''ingest/programs'']) =
     Inr [''p'', ''q''] \<and>
   get_ingest_folder_path (example_os [''p'', ''q''] []) ''tmp'' ''t'' =
     Inr ''tmp/t/ingest/programs/p''"
proof -
  have h: "listdir (example_os [''p'', ''q''] [])
      (os_path_join ''tmp'' [''t'', ''ingest/programs'']) = Inr [''p'', ''q'']"
    by (simp add: example_os_def)
  show ?thesis
    using h get_ingest_folder_path_first_entry [OF h]
    by (simp add: os_path_join_def path_join_step_def starts_with_sep_def endswith_def)
qed

text \<open>
  With two program directories \<^verbatim>\<open>a\<close> and \<^verbatim>\<open>b\<close> the call does not raise: it returns the
  directory of \<^verbatim>\<open>a\<close>.
\<close>

theorem two_programs_counterexample:
  "listdir (example_os [''a'', ''b''] []) (os_path_join ''tmp'' [''t'', ''ingest/programs'']) =
     Inr [''a'', ''b''] \<and>
   get_ingest_folder_path (example_os [''a'', ''b''] []) ''tmp'' ''t'' =
     Inr ''tmp/t/ingest/programs/a''"
  by (simp add: get_ingest_folder_path_def example_os_def os_path_join_def path_join_step_def
      starts_with_sep_def endswith_def)

section \<open>Previewing a file\<close>

text \<open>
  Claim C8 at the failing input: the name ends in \<^verbatim>\<open>event.data.csv\<close> and the programs
  directory is empty; \<^verbatim>\<open>fetch_file_content\<close> raises \<^verbatim>\<open>IndexError\<close> before it looks
  whether the file exists.
\<close>

theorem fetch_event_file_raises:
  "endswith ''score-event.data.csv'' ''event.data.csv'' \<and>
   fetch_file_content (example_os [] []) ''tmp'' ''t'' ''score-event.data.csv'' = Inl IndexError"
  by (simp add: fetch_file_content_def get_ingest_folder_path_def example_os_def endswith_def)

lemma fetch_unrecognized:
  "\<not> endswith filename ''event.data.csv'' \<Longrightarrow> \<not> endswith filename ''event.grammar.csv'' \<Longrightarrow>
   \<not> endswith filename ''dimension.data.csv'' \<Longrightarrow>
   \<not> endswith filename ''dimension.grammar.csv'' \<Longrightarrow>
   fetch_file_content os tmp_base_path token filename = Inr None"
  by (simp add: fetch_file_content_def)

lemma fetch_missing_dimension_file:
  "\<not> endswith filename ''event.data.csv'' \<Longrightarrow> \<not> endswith filename ''event.grammar.csv'' \<Longrightarrow>
   endswith filename ''dimension.data.csv'' \<or> endswith filename ''dimension.grammar.csv'' \<Longrightarrow>
   \<not> path_exists os (os_path_join tmp_base_path [token, ''ingest'', ''dimensions'', filename]) \<Longrightarrow>
   fetch_file_content os tmp_base_path token filename = Inr None"
  by (auto simp add: fetch_file_content_def)

section \<open>The manifest\<close>

text \<open>
  Claim C9: \<^verbatim>\<open>write_config_to_ingest_folder\<close> writes one file, \<^verbatim>\<open>config.json\<close>, whose
  document is built from the program name and description alone.  In it
  \<^verbatim>\<open>onlyCreateWhitelisted\<close> is the string \<^verbatim>\<open>true\<close>, the file-name pattern of the dimensions
  is \<^verbatim>\<open>${dimensionName}.${index}.dimensions.data.csv\<close>, and the programs list holds one
  program with empty whitelisted and blacklisted lists.
\<close>

theorem manifest_fixed_shape:
  "write_config_to_ingest_folder program_name program_description ingest_folder_path =
     [Write_file (os_path_join ingest_folder_path [''config.json''])
        (Json (config_template program_name program_description))] \<and>
   json_at (config_template program_name program_description)
     [''globals'', ''onlyCreateWhitelisted''] = Some (JString ''true'') \<and>
   json_at (config_template program_name program_description)
     [''dimensions'', ''fileNameFormat''] =
     Some (JString ''${dimensionName}.${index}.dimensions.data.csv'') \<and>
   (\<exists>program. json_at (config_template program_name program_description) [''programs'']
        = Some (JArray [program]) \<and>
      json_at program [''name''] = Some (JString program_name) \<and>
      json_at program [''description''] = Some (JString program_description) \<and>
      json_at program [''dimensions'', ''whitelisted''] = Some (JArray []) \<and>
      json_at program [''dimensions'', ''blacklisted''] = Some (JArray []))"
  by (simp add: write_config_to_ingest_folder_def config_template_def)

section \<open>Routing the columns\<close>





section \<open>Classifying the columns\<close>

lemma filter_unique_label:
  "distinct (map name df) \<Longrightarrow> s \<in> set df \<Longrightarrow> filter (\<lambda>t. name t = name s) df = [s]"
proof (induction df)
  case Nil
  then show ?case by simp
next
  case (Cons a df)
  show ?case
  proof (cases "a = s")
    case True
    have "filter (\<lambda>t. name t = name s) df = []"
      using Cons.prems True by (force simp: filter_empty_conv image_iff)
    then show ?thesis using True by simp
  next
    case False
    then have "s \<in> set df" using Cons.prems by simp
    moreover have "name a \<noteq> name s" using Cons.prems \<open>s \<in> set df\<close> by force
    ultimately show ?thesis using Cons by simp
  qed
qed

lemma update_fresh: "k \<notin> fst ` set al \<Longrightarrow> AList.update k v al = al @ [(k, v)]"
  by (induction al) auto

lemma guess_columns_acc:
  "distinct (map name df) \<Longrightarrow> set rest \<subseteq> set df \<Longrightarrow> distinct (map name rest) \<Longrightarrow>
   fst ` set acc \<inter> name ` set rest = {} \<Longrightarrow>
   guess_columns df (map name rest) acc = Inr (acc @ map guessed_entry rest)"
proof (induction rest arbitrary: acc)
  case Nil
  then show ?case by simp
next
  case (Cons s rest)
  have g: "getitem df (name s) = Inr (One_column s)"
    using filter_unique_label[of df s] Cons.prems by (simp add: getitem_def)
  have fresh: "name s \<notin> fst ` set acc" using Cons.prems by auto
  let ?e = "snd (guessed_entry s)"
  have step: "guess_columns df (map name (s # rest)) acc =
      guess_columns df (map name rest) (acc @ [(name s, ?e)])"
    using g fresh by (auto simp: update_fresh guessed_entry_def)
  have "fst ` set (acc @ [(name s, ?e)]) \<inter> name ` set rest = {}"
    using Cons.prems by auto
  then have "guess_columns df (map name rest) (acc @ [(name s, ?e)]) =
      Inr ((acc @ [(name s, ?e)]) @ map guessed_entry rest)"
    using Cons.IH[of "acc @ [(name s, ?e)]"] Cons.prems by simp
  then show ?case using step by (simp add: guessed_entry_def)
qed

text \<open>
  Claim C3, as the code has it: for a parsed file whose column labels are distinct,
  \<^verbatim>\<open>guess_metrics_and_columns\<close> returns one entry per column, in column order; the
  entry is a metric exactly when the column's storage type is the signed 64-bit integer
  type and a dimension otherwise, and its updated name is the column's label.
\<close>

theorem metric_iff_int64:
  "read_csv os (os_path_join tmp_base_path [token, filename]) = Inr df \<Longrightarrow>
   distinct (map name df) \<Longrightarrow>
   guess_metrics_and_columns os tmp_base_path token filename =
     Inr (map (\<lambda>s. (name s, \<lparr>updated_col_name = name s, metric = (dtype s = Int64),
                               dimension = (dtype s \<noteq> Int64)\<rparr>)) df)"
  using guess_columns_acc[of df df "[]"]
  by (simp add: guess_metrics_and_columns_def guessed_entry_def[abs_def])

theorem metric_iff_int64_witness:
  "guess_metrics_and_columns (example_os [] boundary_df) ''tmp'' ''t'' ''data.csv'' =
     Inr [(''zero'', \<lparr>updated_col_name = ''zero'', metric = True, dimension = False\<rparr>),
          (''negative'', \<lparr>updated_col_name = ''negative'', metric = True, dimension = False\<rparr>),
          (''ratio'', \<lparr>updated_col_name = ''ratio'', metric = False, dimension = True\<rparr>),
          (''big'', \<lparr>updated_col_name = ''big'', metric = False, dimension = True\<rparr>)]"
proof -
  have r: "read_csv (example_os [] boundary_df) (os_path_join ''tmp'' [''t'', ''data.csv'']) =
      Inr boundary_df"
    by (simp add: example_os_def)
  have d: "distinct (map name boundary_df)"
    by (simp add: boundary_df_def)
  show ?thesis
    using metric_iff_int64 [OF r d] by (simp add: boundary_df_def)
qed

text \<open>
  A column of one integer, 2 to the power 63, stored as unsigned 64-bit integers: its
  value is an integer and fits the storage type, and the column is classified as a
  dimension.
\<close>

theorem unsigned_integers_counterexample:
  "list_all parses_as_integer [Integer (2 ^ 63)] \<and> list_all (fits UInt64) [Integer (2 ^ 63)] \<and>
   guess_metrics_and_columns
     (example_os [] [\<lparr>name = ''big'', dtype = UInt64, cells = [Integer (2 ^ 63)]\<rparr>])
     ''tmp'' ''t'' ''data.csv'' =
     Inr [(''big'', \<lparr>updated_col_name = ''big'', metric = False, dimension = True\<rparr>)]"
  by (simp add: guess_metrics_and_columns_def example_os_def getitem_def)

section \<open>Canonical column names\<close>

lemma alnum_lower: "is_alnum (lower_char c) \<Longrightarrow> is_lower_alnum (lower_char c)"
  unfolding is_alnum_def is_lower_alnum_def lower_char_def Let_def less_eq_char_def
  using nat_of_char_less_256[of c]
  by (auto simp: of_char_of split: if_splits)

lemma lower_fix: "is_lower_alnum c \<or> c = CHR ''_'' \<Longrightarrow> lower_char c = c"
  unfolding is_lower_alnum_def lower_char_def Let_def less_eq_char_def
  by auto

lemma lower_alnum_alnum: "is_lower_alnum c \<Longrightarrow> is_alnum c"
  by (auto simp: is_lower_alnum_def is_alnum_def)

lemma lower_alnum_not_space:
  "is_lower_alnum c \<Longrightarrow> \<not> is_whitespace c \<and> c \<noteq> CHR '' '' \<and> c \<noteq> CHR ''_''"
  unfolding is_lower_alnum_def is_whitespace_def Let_def less_eq_char_def
  by auto

lemma underscore_not_alnum: "\<not> is_alnum (CHR ''_'')"
  by (simp add: is_alnum_def)

lemma space_is_whitespace: "is_whitespace (CHR '' '')"
  by (simp add: is_whitespace_def)

lemma spaced_sub_lower: "spaced (sub_non_alnum (lower s))"
  by (induction s) (auto simp: spaced_def sub_non_alnum_def lower_def alnum_lower)

lemma spaced_dropWhile: "spaced s \<Longrightarrow> spaced (dropWhile P s)"
  by (induction s) (auto simp: spaced_def)

lemma spaced_rev: "spaced (rev s) = spaced s"
  by (simp add: spaced_def list_all_iff)

lemma spaced_strip: "spaced s \<Longrightarrow> spaced (strip s)"
  by (simp add: strip_def spaced_rev spaced_dropWhile)

lemma strip_last: "strip s \<noteq> [] \<Longrightarrow> \<not> is_whitespace (last (strip s))"
proof -
  assume ne: "strip s \<noteq> []"
  let ?d = "dropWhile is_whitespace (rev (dropWhile is_whitespace s))"
  have d: "?d \<noteq> []" using ne by (simp only: strip_def rev_is_Nil_conv not_False_eq_True)
  have "last (strip s) = hd ?d" unfolding strip_def by (rule last_rev)
  then show ?thesis using hd_dropWhile[OF d] by simp
qed

lemma strip_hd: "strip s \<noteq> [] \<Longrightarrow> \<not> is_whitespace (hd (strip s))"
proof -
  assume ne: "strip s \<noteq> []"
  let ?t = "dropWhile is_whitespace s"
  have d: "dropWhile is_whitespace (rev ?t) \<noteq> []"
    using ne by (simp only: strip_def rev_is_Nil_conv not_False_eq_True)
  then have t: "?t \<noteq> []" by (metis dropWhile.simps(1) rev.simps(1))
  have "hd (strip s) = last (dropWhile is_whitespace (rev ?t))"
    unfolding strip_def by (rule hd_rev)
  also have "\<dots> = last (rev ?t)"
    using d by (metis append_Nil2 last_appendR takeWhile_dropWhile_id)
  also have "\<dots> = hd ?t" using t by (simp add: last_rev)
  finally show ?thesis using t hd_dropWhile by metis
qed

lemma strip_id:
  "s \<noteq> [] \<Longrightarrow> \<not> is_whitespace (hd s) \<Longrightarrow> \<not> is_whitespace (last s) \<Longrightarrow> strip s = s"
proof -
  assume a: "s \<noteq> []" "\<not> is_whitespace (hd s)" "\<not> is_whitespace (last s)"
  have 1: "dropWhile is_whitespace s = s" using a by (cases s) auto
  have 2: "dropWhile is_whitespace (rev s) = rev s"
    using a by (cases "rev s") (auto simp: hd_rev)
  show ?thesis by (simp add: strip_def 1 2)
qed

lemma canon_collapse:
  "spaced s \<Longrightarrow> (s = [] \<longrightarrow> p) \<Longrightarrow> (s \<noteq> [] \<longrightarrow> last s \<noteq> CHR '' '') \<Longrightarrow>
   (\<not> p \<longrightarrow> s \<noteq> [] \<and> hd s \<noteq> CHR '' '') \<Longrightarrow>
   canon_from p (replace_spaces (sub_space_runs s))"
  by (induction s arbitrary: p rule: sub_space_runs.induct)
     (auto simp: spaced_def replace_spaces_def lower_alnum_not_space)

lemma clean_shape: "canonical (clean_column_name x) \<or> clean_column_name x = []"
proof (cases "strip (sub_non_alnum (lower x)) = []")
  case True
  then show ?thesis by (simp add: clean_column_name_def replace_spaces_def)
next
  case False
  let ?s = "strip (sub_non_alnum (lower x))"
  have sp: "spaced ?s" by (simp add: spaced_strip spaced_sub_lower)
  have h: "hd ?s \<noteq> CHR '' ''" using strip_hd[OF False] space_is_whitespace by metis
  have l: "last ?s \<noteq> CHR '' ''" using strip_last[OF False] space_is_whitespace by metis
  have "canon_from False (replace_spaces (sub_space_runs ?s))"
    using sp h l False by (intro canon_collapse) auto
  then show ?thesis by (simp add: canonical_def clean_column_name_def)
qed

lemma canon_from_chars:
  "canon_from p s \<Longrightarrow> list_all (\<lambda>c. is_lower_alnum c \<or> c = CHR ''_'') s"
  by (induction s arbitrary: p) (auto split: if_splits)

lemma canon_lower: "canon_from p s \<Longrightarrow> lower s = s"
  by (induction s arbitrary: p) (auto simp: lower_def lower_fix split: if_splits)

lemma canon_sub: "canon_from p s \<Longrightarrow> sub_non_alnum s = underscores_to_spaces s"
proof -
  assume "canon_from p s"
  then have "\<forall>c \<in> set s. is_lower_alnum c \<or> c = CHR ''_''"
    using canon_from_chars by (simp add: list_all_iff)
  then have "\<forall>c \<in> set s. (if is_alnum c then c else CHR '' '') =
      (if c = CHR ''_'' then CHR '' '' else c)"
    using lower_alnum_alnum lower_alnum_not_space underscore_not_alnum by auto
  then show ?thesis by (simp add: sub_non_alnum_def underscores_to_spaces_def)
qed

lemma canon_hd: "canon_from False s \<Longrightarrow> s \<noteq> [] \<and> is_lower_alnum (hd s)"
  by (cases s) (auto split: if_splits)

lemma canon_last: "canon_from p s \<Longrightarrow> s \<noteq> [] \<Longrightarrow> is_lower_alnum (last s)"
  by (induction s arbitrary: p) (auto split: if_splits)

lemma canon_runs:
  "canon_from p s \<Longrightarrow> replace_spaces (sub_space_runs (underscores_to_spaces s)) = s"
  by (induction s arbitrary: p rule: sub_space_runs.induct)
     (auto simp: underscores_to_spaces_def replace_spaces_def lower_alnum_not_space
        split: if_splits)

lemma clean_fixpoint: "canonical s \<Longrightarrow> clean_column_name s = s"
proof -
  assume c: "canonical s"
  then have cf: "canon_from False s" by (simp add: canonical_def)
  let ?u = "underscores_to_spaces s"
  have ne: "s \<noteq> []" and h: "is_lower_alnum (hd s)" using canon_hd[OF cf] by auto
  have l: "is_lower_alnum (last s)" using canon_last[OF cf ne] .
  have une: "?u \<noteq> []" using ne by (simp add: underscores_to_spaces_def)
  have uh: "hd ?u = hd s" using ne h lower_alnum_not_space[of "hd s"]
    by (simp add: underscores_to_spaces_def hd_map)
  have ul: "last ?u = last s" using ne l lower_alnum_not_space[of "last s"]
    by (simp add: underscores_to_spaces_def last_map)
  have "strip ?u = ?u"
    using une uh ul h l lower_alnum_not_space by (intro strip_id) auto
  then show ?thesis
    by (simp add: clean_column_name_def canon_lower[OF cf] canon_sub[OF cf] canon_runs[OF cf])
qed

lemma clean_empty: "clean_column_name [] = []"
  by (simp add: clean_column_name_def lower_def sub_non_alnum_def strip_def replace_spaces_def)

text \<open>
  Claim C4: \<^verbatim>\<open>clean_column_name\<close> is idempotent.
\<close>

theorem clean_column_name_idempotent:
  "clean_column_name (clean_column_name x) = clean_column_name x"
proof (cases "clean_column_name x = []")
  case True
  then show ?thesis by (simp add: clean_empty)
next
  case False
  then have "canonical (clean_column_name x)" using clean_shape[of x] by simp
  then show ?thesis by (rule clean_fixpoint)
qed

text \<open>
  Claim C5, as the code has it: the result of \<^verbatim>\<open>clean_column_name\<close> matches the pattern
  \<^verbatim>\<open>^[a-z0-9]+(_[a-z0-9]+)*$\<close> or is the empty string; the function has no error result.
\<close>

theorem clean_column_name_canonical_or_empty:
  "canonical (clean_column_name x) \<or> clean_column_name x = []"
  by (rule clean_shape)

text \<open>
  For the name \<^verbatim>\<open>!!\<close> the function returns the empty string, which does not match the
  pattern.
\<close>

theorem empty_name_counterexample:
  "clean_column_name ''!!'' = [] \<and> \<not> canonical (clean_column_name ''!!'')"
proof -
  have "clean_column_name ''!!'' = []" by code_simp
  then show ?thesis by (simp add: canonical_def)
qed

lemma clean_examples:
  "clean_column_name ''  Hello,  World!! (2024) '' = ''hello_world_2024''"
  "clean_column_name ''__a__B  c_'' = ''a_b_c''"
  by code_simp+

text \<open>
  The automaton accepts exactly the non-empty strings of lower-case letters, digits and
  underscores that neither start nor end with an underscore and have no two
  underscores in a row.
\<close>

lemma canon_from_iff:
  "canon_from p s \<longleftrightarrow>
     list_all (\<lambda>c. is_lower_alnum c \<or> c = CHR ''_'') s \<and>
     (s = [] \<longrightarrow> p) \<and>
     (s \<noteq> [] \<longrightarrow> last s \<noteq> CHR ''_'' \<and> (hd s = CHR ''_'' \<longrightarrow> p)) \<and>
     (\<forall>i. Suc i < length s \<longrightarrow> \<not> (s ! i = CHR ''_'' \<and> s ! Suc i = CHR ''_''))"
proof (induction s arbitrary: p)
  case Nil
  then show ?case by simp
next
  case (Cons c cs)
  have u: "\<not> is_lower_alnum (CHR ''_'')" by (simp add: is_lower_alnum_def)
  have shift: "(\<forall>i. Suc i < length (c # cs) \<longrightarrow>
        \<not> ((c # cs) ! i = CHR ''_'' \<and> (c # cs) ! Suc i = CHR ''_'')) \<longleftrightarrow>
      (cs \<noteq> [] \<longrightarrow> \<not> (c = CHR ''_'' \<and> hd cs = CHR ''_'')) \<and>
      (\<forall>i. Suc i < length cs \<longrightarrow> \<not> (cs ! i = CHR ''_'' \<and> cs ! Suc i = CHR ''_''))"
    (is "?L \<longleftrightarrow> ?R")
  proof
    assume l: ?L
    have a: "cs \<noteq> [] \<longrightarrow> \<not> (c = CHR ''_'' \<and> hd cs = CHR ''_'')"
      using l[rule_format, of 0] by (cases cs) auto
    have b: "\<forall>i. Suc i < length cs \<longrightarrow> \<not> (cs ! i = CHR ''_'' \<and> cs ! Suc i = CHR ''_'')"
      using l by (metis Suc_less_eq length_Cons nth_Cons_Suc)
    from a b show ?R by simp
  next
    assume r: ?R
    show ?L
    proof (intro allI impI)
      fix i assume i: "Suc i < length (c # cs)"
      show "\<not> ((c # cs) ! i = CHR ''_'' \<and> (c # cs) ! Suc i = CHR ''_'')"
      proof (cases i)
        case 0
        then show ?thesis using r i by (cases cs) auto
      next
        case (Suc j)
        then show ?thesis using r i by auto
      qed
    qed
  qed
  show ?case
    unfolding shift using Cons.IH[of True] Cons.IH[of False] u
    by (cases cs) (auto simp: Cons.IH)
qed

lemma canonical_iff:
  "canonical s \<longleftrightarrow>
     s \<noteq> [] \<and> list_all (\<lambda>c. is_lower_alnum c \<or> c = CHR ''_'') s \<and>
     hd s \<noteq> CHR ''_'' \<and> last s \<noteq> CHR ''_'' \<and>
     (\<forall>i. Suc i < length s \<longrightarrow> \<not> (s ! i = CHR ''_'' \<and> s ! Suc i = CHR ''_''))"
  unfolding canonical_def canon_from_iff by auto

section \<open>Dimension files\<close>

lemma lines_from_line:
  "newline \<notin> set s \<Longrightarrow> lines_from cur (s @ newline # rest) = (cur @ s) # lines_from [] rest"
  by (induction s arbitrary: cur) auto

lemma lines_from_last:
  "newline \<notin> set s \<Longrightarrow> cur @ s \<noteq> [] \<Longrightarrow> lines_from cur s = [cur @ s]"
  by (induction s arbitrary: cur) auto

lemma grammar_lines:
  "newline \<notin> set d \<Longrightarrow>
   splitlines (dimension_grammar_data d) = [''PK,Index'', ''string,string'', d @ ''_id,'' @ d]"
proof -
  assume d: "newline \<notin> set d"
  have a: "newline \<notin> set ''PK,Index''" and b: "newline \<notin> set ''string,string''"
    by (simp_all add: newline_def)
  have c: "newline \<notin> set (d @ ''_id,'' @ d)" using d by (simp add: newline_def)
  have "lines_from [] (''PK,Index'' @ newline # ''string,string'' @ newline # (d @ ''_id,'' @ d))
      = [''PK,Index'', ''string,string'', d @ ''_id,'' @ d]"
    unfolding lines_from_line[OF a] lines_from_line[OF b]
    using lines_from_last[OF c, of "[]"] by simp
  then show ?thesis by (simp add: splitlines_def dimension_grammar_data_def)
qed

lemma write_dimensions_texts:
  "Write_file p (Text t) \<in> set (fst (write_dimensions df base dims)) \<Longrightarrow>
   \<exists>d \<in> set dims. p = os_path_join base [d @ ''-dimension.grammar.csv''] \<and>
      t = dimension_grammar_data d"
  by (induction dims) (auto simp: Let_def split: sum.splits prod.splits)

lemma write_dimensions_csvs:
  "Write_file p (Csv c) \<in> set (fst (write_dimensions df base dims)) \<Longrightarrow>
   \<exists>d \<in> set dims. \<exists>column_df. p = os_path_join base [d @ ''-dimension.data.csv''] \<and>
      dimension_frame df d = Inr column_df \<and> c = to_csv column_df"
  by (induction dims) (auto simp: Let_def split: sum.splits prod.splits)

lemma write_dimensions_complete:
  "snd (write_dimensions df base dims) = None \<Longrightarrow> d \<in> set dims \<Longrightarrow>
   Write_file (os_path_join base [d @ ''-dimension.grammar.csv''])
     (Text (dimension_grammar_data d)) \<in> set (fst (write_dimensions df base dims)) \<and>
   (\<exists>column_df. dimension_frame df d = Inr column_df \<and>
      Write_file (os_path_join base [d @ ''-dimension.data.csv'']) (Csv (to_csv column_df))
        \<in> set (fst (write_dimensions df base dims)))"
  by (induction dims) (auto simp: Let_def split: sum.splits prod.splits)

lemma write_dimensions_succeeds:
  "list_all (\<lambda>d. \<exists>column_df. dimension_frame df d = Inr column_df) dims \<Longrightarrow>
   snd (write_dimensions df base dims) = None"
  by (induction dims) (auto simp: Let_def split: sum.splits prod.splits)


lemmas path_simps = os_path_join_def path_join_step_def starts_with_sep_def endswith_def
  dimension_grammar_path_def dimension_data_path_def event_data_path_def

lemma scenario_dimensions:
  "write_dimensions_to_ingest_folder scenario_df [''name''] ''ingest'' =
    ([Create_folder ''ingest/dimensions'',
      Write_file ''ingest/dimensions/name-dimension.grammar.csv''
        (Text (''PK,Index'' @ [newline] @ ''string,string'' @ [newline] @ ''name_id,name'')),
      Write_file ''ingest/dimensions/name-dimension.data.csv''
        (Csv \<lparr>header = [''name_id'', ''name''],
               rows = [[Int_cell 1, Val (Str ''Ada'')], [Int_cell 2, Val (Str ''Grace'')]]\<rparr>)],
     None)"
  by (simp add: write_dimensions_to_ingest_folder_def scenario_df_def path_simps
      getitem_def dimension_frame_def insert_column_def as_values_def
      drop_duplicates_def nrows_def to_csv_def frame_rows_def row_at_def
      dimension_grammar_data_def upto_rec1 upt_conv_Cons)

lemma drop_duplicates_seen_set: "set (drop_duplicates_seen seen xs) = set xs - set seen"
  by (induction xs arbitrary: seen) auto

lemma drop_duplicates_seen_distinct: "distinct (drop_duplicates_seen seen xs)"
  by (induction xs arbitrary: seen) (auto simp: drop_duplicates_seen_set)

lemma drop_duplicates_seen_positions:
  "drop_duplicates_seen seen xs =
     map ((!) xs) (filter (\<lambda>i. xs ! i \<notin> set seen \<union> set (take i xs)) [0..<length xs])"
proof (induction xs arbitrary: seen)
  case Nil
  then show ?case by simp
next
  case (Cons x xs)
  let ?P = "\<lambda>i. (x # xs) ! i \<notin> set seen \<union> set (take i (x # xs))"
  have upt: "[0..<length (x # xs)] = 0 # map Suc [0..<length xs]"
    by (simp add: upt_conv_Cons map_Suc_upt del: upt_Suc)
  have shift: "map ((!) (x # xs)) (filter ?P (map Suc [0..<length xs])) =
      map ((!) xs) (filter (?P \<circ> Suc) [0..<length xs])"
    by (simp add: filter_map comp_def)
  show ?case
  proof (cases "x \<in> set seen")
    case True
    have "?P \<circ> Suc = (\<lambda>i. xs ! i \<notin> set seen \<union> set (take i xs))"
      using True by (auto simp: fun_eq_iff)
    then have "map ((!) (x # xs)) (filter ?P (map Suc [0..<length xs])) =
        drop_duplicates_seen seen xs"
      using shift Cons.IH[of seen] by simp
    then show ?thesis
      unfolding upt using True by simp
  next
    case False
    have "?P \<circ> Suc = (\<lambda>i. xs ! i \<notin> set (x # seen) \<union> set (take i xs))"
      by (auto simp: fun_eq_iff)
    then have "map ((!) (x # xs)) (filter ?P (map Suc [0..<length xs])) =
        drop_duplicates_seen (x # seen) xs"
      using shift Cons.IH[of "x # seen"] by simp
    then show ?thesis
      unfolding upt using False by simp
  qed
qed

lemma drop_duplicates_distinct: "distinct (drop_duplicates xs)"
  by (simp add: drop_duplicates_def drop_duplicates_seen_distinct)

lemma drop_duplicates_set: "set (drop_duplicates xs) = set xs"
  by (simp add: drop_duplicates_def drop_duplicates_seen_set)

lemma drop_duplicates_first_occurrences:
  "drop_duplicates xs = map ((!) xs) (first_occurrences xs)"
  by (simp add: drop_duplicates_def first_occurrences_def drop_duplicates_seen_positions)

lemma rows_of_two_columns:
  "length a = length b \<Longrightarrow>
   map (\<lambda>i. [f (a ! i), g (b ! i)]) [0..<length a] = map (\<lambda>(x, y). [f x, g y]) (zip a b)"
  by (rule nth_equalityI) auto

lemma has_column_name: "has_column df d s \<Longrightarrow> name s = d"
proof -
  assume "has_column df d s"
  then have "s \<in> set (filter (\<lambda>t. name t = d) df)" by (simp add: has_column_def)
  then show ?thesis by simp
qed

lemma dimension_frame_column:
  assumes "has_column df d s"
  shows "dimension_frame df d =
     Inr [\<lparr>name = d @ ''_id'', dtype = Int64,
            cells = map Int_cell [1..int (length (drop_duplicates (cells s)))]\<rparr>,
          \<lparr>name = d, dtype = dtype s, cells = map Val (drop_duplicates (cells s))\<rparr>]"
  using assms has_column_name[OF assms]
  by (simp add: dimension_frame_def getitem_def has_column_def insert_column_def as_values_def
      nrows_def)

lemma dimension_csv_column:
  assumes "has_column df d s"
  shows "\<exists>column_df. dimension_frame df d = Inr column_df \<and>
     to_csv column_df =
       \<lparr>header = [d @ ''_id'', d],
        rows = map (\<lambda>(i, v). [Int_cell i, Val v])
                 (zip [1..int (length (drop_duplicates (cells s)))] (drop_duplicates (cells s)))\<rparr>"
proof -
  let ?vs = "drop_duplicates (cells s)"
  let ?ids = "[1..int (length ?vs)]"
  have len: "length ?ids = length ?vs" by simp
  have "map (\<lambda>i. [Int_cell (?ids ! i), Val (?vs ! i)]) [0..<length ?ids] =
      map (\<lambda>(x, y). [Int_cell x, Val y]) (zip ?ids ?vs)"
    using len by (rule rows_of_two_columns)
  moreover have "map (\<lambda>i. [Int_cell (?ids ! i), Val (?vs ! i)]) [0..<length ?ids] =
      map (\<lambda>i. [map Int_cell ?ids ! i, map Val ?vs ! i]) [0..<length ?ids]"
    using len by (intro map_cong) auto
  ultimately show ?thesis
    unfolding dimension_frame_column[OF assms]
    by (simp add: to_csv_def frame_rows_def row_at_def nrows_def del: upt_Suc nth_upto)
qed

text \<open>
  Claim C6, as the code has it: every text file that
  \<^verbatim>\<open>write_dimensions_to_ingest_folder\<close> writes is the grammar file of one of the
  dimensions, with the content \<^verbatim>\<open>PK,Index\<close>, line feed, \<^verbatim>\<open>string,string\<close>, line feed,
  \<^verbatim>\<open><d>_id,<d>\<close>; when the call completes, the grammar file of every dimension was
  written; and for a name without a line feed this content has exactly three lines.
\<close>

theorem dimension_grammar_three_lines:
  "(\<forall>p t. Write_file p (Text t)
        \<in> set (fst (write_dimensions_to_ingest_folder df dimensions ingest_folder_path)) \<longrightarrow>
      (\<exists>d \<in> set dimensions. p = dimension_grammar_path ingest_folder_path d \<and>
         t = ''PK,Index'' @ [newline] @ ''string,string'' @ [newline] @ d @ ''_id,'' @ d)) \<and>
   (snd (write_dimensions_to_ingest_folder df dimensions ingest_folder_path) = None \<longrightarrow>
      (\<forall>d \<in> set dimensions.
         Write_file (dimension_grammar_path ingest_folder_path d)
           (Text (''PK,Index'' @ [newline] @ ''string,string'' @ [newline] @ d @ ''_id,'' @ d))
         \<in> set (fst (write_dimensions_to_ingest_folder df dimensions ingest_folder_path)))) \<and>
   (\<forall>d. newline \<notin> set d \<longrightarrow>
      splitlines (''PK,Index'' @ [newline] @ ''string,string'' @ [newline] @ d @ ''_id,'' @ d) =
        [''PK,Index'', ''string,string'', d @ ''_id,'' @ d])"
proof (intro conjI allI impI ballI)
  fix p t
  assume "Write_file p (Text t)
      \<in> set (fst (write_dimensions_to_ingest_folder df dimensions ingest_folder_path))"
  then have "Write_file p (Text t) \<in> set (fst (write_dimensions df
      (os_path_join ingest_folder_path [''dimensions'']) dimensions))"
    by (auto simp: write_dimensions_to_ingest_folder_def Let_def split: prod.splits)
  from write_dimensions_texts[OF this]
  show "\<exists>d \<in> set dimensions. p = dimension_grammar_path ingest_folder_path d \<and>
      t = ''PK,Index'' @ [newline] @ ''string,string'' @ [newline] @ d @ ''_id,'' @ d"
    by (simp add: dimension_grammar_path_def dimension_grammar_data_def)
next
  fix d
  assume "snd (write_dimensions_to_ingest_folder df dimensions ingest_folder_path) = None"
    and d: "d \<in> set dimensions"
  then have "snd (write_dimensions df (os_path_join ingest_folder_path [''dimensions''])
      dimensions) = None"
    by (auto simp: write_dimensions_to_ingest_folder_def Let_def split: prod.splits)
  from write_dimensions_complete[OF this d]
  show "Write_file (dimension_grammar_path ingest_folder_path d)
      (Text (''PK,Index'' @ [newline] @ ''string,string'' @ [newline] @ d @ ''_id,'' @ d))
      \<in> set (fst (write_dimensions_to_ingest_folder df dimensions ingest_folder_path))"
    by (auto simp: write_dimensions_to_ingest_folder_def dimension_grammar_path_def
        dimension_grammar_data_def Let_def split: prod.splits)
next
  fix d :: string
  assume "newline \<notin> set d"
  from grammar_lines[OF this]
  show "splitlines (''PK,Index'' @ [newline] @ ''string,string'' @ [newline] @ d @ ''_id,'' @ d)
      = [''PK,Index'', ''string,string'', d @ ''_id,'' @ d]"
    by (simp add: dimension_grammar_data_def)
qed

theorem dimension_grammar_three_lines_witness:
  "snd (write_dimensions_to_ingest_folder scenario_df [''name''] ''ingest'') = None \<and>
   Write_file ''ingest/dimensions/name-dimension.grammar.csv''
     (Text (''PK,Index'' @ [newline] @ ''string,string'' @ [newline] @ ''name_id,name''))
     \<in> set (fst (write_dimensions_to_ingest_folder scenario_df [''name''] ''ingest'')) \<and>
   newline \<notin> set ''name'' \<and>
   splitlines (''PK,Index'' @ [newline] @ ''string,string'' @ [newline] @ ''name_id,name'') =
     [''PK,Index'', ''string,string'', ''name_id,name'']"
proof -
  have ok: "snd (write_dimensions_to_ingest_folder scenario_df [''name''] ''ingest'') = None"
    by (simp add: scenario_dimensions)
  have nl: "newline \<notin> set ''name''" by (simp add: newline_def)
  note t = dimension_grammar_three_lines [of scenario_df "[''name'']" "''ingest''"]
  from t ok have w: "Write_file (dimension_grammar_path ''ingest'' ''name'')
      (Text (''PK,Index'' @ [newline] @ ''string,string'' @ [newline] @ ''name'' @ ''_id,'' @ ''name''))
      \<in> set (fst (write_dimensions_to_ingest_folder scenario_df [''name''] ''ingest''))"
    by simp
  from t nl have l: "splitlines
      (''PK,Index'' @ [newline] @ ''string,string'' @ [newline] @ ''name'' @ ''_id,'' @ ''name'') =
      [''PK,Index'', ''string,string'', ''name'' @ ''_id,'' @ ''name'']"
    by blast
  show ?thesis
    using ok nl w l by (simp add: path_simps)
qed

text \<open>
  For the dimension \<^verbatim>\<open>name\<close> of the scenario the grammar file has the three lines
  \<^verbatim>\<open>PK,Index\<close>, \<^verbatim>\<open>string,string\<close> and \<^verbatim>\<open>name_id,name\<close>, not two.
\<close>

theorem grammar_third_line_counterexample:
  "fst (write_dimensions_to_ingest_folder scenario_df [''name''] ''ingest'') ! 1 =
     Write_file ''ingest/dimensions/name-dimension.grammar.csv''
       (Text (''PK,Index'' @ [newline] @ ''string,string'' @ [newline] @ ''name_id,name'')) \<and>
   splitlines (''PK,Index'' @ [newline] @ ''string,string'' @ [newline] @ ''name_id,name'') =
     [''PK,Index'', ''string,string'', ''name_id,name''] \<and>
   splitlines (''PK,Index'' @ [newline] @ ''string,string'' @ [newline] @ ''name_id,name'') \<noteq>
     [''PK,Index'', ''string,string'']"
proof -
  have nl: "newline \<notin> set ''name''" by (simp add: newline_def)
  show ?thesis
    using grammar_lines[OF nl]
    by (simp add: scenario_dimensions dimension_grammar_data_def)
qed

section \<open>Dimension data\<close>

text \<open>
  When every dimension names exactly one column of the table,
  \<^verbatim>\<open>write_dimensions_to_ingest_folder\<close> completes, and for every dimension \<open>d\<close> with column
  \<open>s\<close> it writes the data file of \<open>d\<close> with the header \<^verbatim>\<open><d>_id,<d>\<close> and one row per
  distinct value of the column: the ids 1 to N paired, in this order, with the values
  of the column at the positions where a value occurs for the first time.  These values
  are pairwise distinct and are all the values of the column, and every data file
  written is the file of a dimension with this content.
\<close>

lemma dimension_data_file:
  assumes "\<forall>d \<in> set dimensions. \<exists>s. has_column df d s"
  shows "snd (write_dimensions_to_ingest_folder df dimensions ingest_folder_path) = None \<and>
    (\<forall>d \<in> set dimensions. \<forall>s. has_column df d s \<longrightarrow>
       Write_file (dimension_data_path ingest_folder_path d)
         (Csv \<lparr>header = [d @ ''_id'', d],
                rows = map (\<lambda>(i, v). [Int_cell i, Val v])
                         (zip [1..int (length (drop_duplicates (cells s)))]
                              (drop_duplicates (cells s)))\<rparr>)
         \<in> set (fst (write_dimensions_to_ingest_folder df dimensions ingest_folder_path)) \<and>
       drop_duplicates (cells s) = map ((!) (cells s)) (first_occurrences (cells s)) \<and>
       distinct (drop_duplicates (cells s)) \<and>
       set (drop_duplicates (cells s)) = set (cells s)) \<and>
    (\<forall>p c. Write_file p (Csv c)
         \<in> set (fst (write_dimensions_to_ingest_folder df dimensions ingest_folder_path)) \<longrightarrow>
       (\<exists>d \<in> set dimensions. \<exists>s. has_column df d s \<and>
          p = dimension_data_path ingest_folder_path d \<and>
          c = \<lparr>header = [d @ ''_id'', d],
                rows = map (\<lambda>(i, v). [Int_cell i, Val v])
                         (zip [1..int (length (drop_duplicates (cells s)))]
                              (drop_duplicates (cells s)))\<rparr>))"
proof -
  let ?base = "os_path_join ingest_folder_path [''dimensions'']"
  let ?run = "write_dimensions df ?base dimensions"
  have run: "write_dimensions_to_ingest_folder df dimensions ingest_folder_path =
      (Create_folder ?base # fst ?run, snd ?run)"
    by (simp add: write_dimensions_to_ingest_folder_def Let_def split: prod.splits)
  have "list_all (\<lambda>d. \<exists>column_df. dimension_frame df d = Inr column_df) dimensions"
    using assms dimension_csv_column by (fastforce simp: list_all_iff)
  then have ok: "snd ?run = None" by (rule write_dimensions_succeeds)
  have written: "Write_file (dimension_data_path ingest_folder_path d)
         (Csv \<lparr>header = [d @ ''_id'', d],
                rows = map (\<lambda>(i, v). [Int_cell i, Val v])
                         (zip [1..int (length (drop_duplicates (cells s)))]
                              (drop_duplicates (cells s)))\<rparr>)
         \<in> set (fst ?run)"
    if d: "d \<in> set dimensions" and s: "has_column df d s" for d s
    using write_dimensions_complete[OF ok d] dimension_csv_column[OF s]
    by (auto simp: dimension_data_path_def)
  have only: "\<exists>d \<in> set dimensions. \<exists>s. has_column df d s \<and>
          p = dimension_data_path ingest_folder_path d \<and>
          c = \<lparr>header = [d @ ''_id'', d],
                rows = map (\<lambda>(i, v). [Int_cell i, Val v])
                         (zip [1..int (length (drop_duplicates (cells s)))]
                              (drop_duplicates (cells s)))\<rparr>"
    if w: "Write_file p (Csv c) \<in> set (fst ?run)" for p c
  proof -
    from write_dimensions_csvs[OF w] obtain d column_df where
      d: "d \<in> set dimensions" and p: "p = os_path_join ?base [d @ ''-dimension.data.csv'']"
      and f: "dimension_frame df d = Inr column_df" and c: "c = to_csv column_df"
      by blast
    from assms d obtain s where s: "has_column df d s" by blast
    from dimension_csv_column[OF s] f c p d s show ?thesis
      by (auto simp: dimension_data_path_def)
  qed
  show ?thesis
    unfolding run using ok written only
    by (auto simp: drop_duplicates_distinct drop_duplicates_set
        drop_duplicates_first_occurrences[symmetric])
qed

lemma dimension_data_file_scenario:
  "has_column scenario_df ''name''
     \<lparr>name = ''name'', dtype = Object, cells = [Str ''Ada'', Str ''Grace'', Str ''Ada'']\<rparr> \<and>
   snd (write_dimensions_to_ingest_folder scenario_df [''name''] ''ingest'') = None \<and>
   Write_file ''ingest/dimensions/name-dimension.data.csv''
     (Csv \<lparr>header = [''name_id'', ''name''],
            rows = [[Int_cell 1, Val (Str ''Ada'')], [Int_cell 2, Val (Str ''Grace'')]]\<rparr>)
     \<in> set (fst (write_dimensions_to_ingest_folder scenario_df [''name''] ''ingest''))"
proof -
  let ?s = "\<lparr>name = ''name'', dtype = Object, cells = [Str ''Ada'', Str ''Grace'', Str ''Ada'']\<rparr>"
  have h: "has_column scenario_df ''name'' ?s"
    by (simp add: has_column_def scenario_df_def)
  then have a: "\<forall>d \<in> set [''name'']. \<exists>s. has_column scenario_df d s" by auto
  have m: "''name'' \<in> set [''name'']" by simp
  note t = dimension_data_file [OF a, of "''ingest''"]
  note ok = t [THEN conjunct1]
  note w = t [THEN conjunct2, THEN conjunct1, THEN bspec, OF m, THEN spec, of ?s, THEN mp, OF h,
      THEN conjunct1]
  have v: "drop_duplicates [Str ''Ada'', Str ''Grace'', Str ''Ada''] = [Str ''Ada'', Str ''Grace'']"
    by (simp add: drop_duplicates_def)
  show ?thesis
    using h ok w by (simp add: v path_simps upto_rec1)
qed

lemma twin_frame:
  "dimension_frame twin_df ''first_name'' =
     Inr [\<lparr>name = ''first_name_id'', dtype = Int64, cells = [Int_cell 1, Int_cell 2]\<rparr>,
          \<lparr>name = ''first_name'', dtype = Object, cells = [Val (Str ''Ada''), Val (Str ''Ada'')]\<rparr>,
          \<lparr>name = ''first_name'', dtype = Object, cells = [Val (Str ''Ada''), Val (Str ''Bob'')]\<rparr>]"
  by (simp add: dimension_frame_def getitem_def twin_df_def frame_drop_duplicates_def
      frame_rows_def row_at_def nrows_def drop_duplicates_def insert_column_def as_values_def
      upt_conv_Cons upto_rec1)

text \<open>
  Claim C1 at the failing input: a file with the header \<^verbatim>\<open>First Name,first_name\<close>, whose
  two labels both normalize to \<^verbatim>\<open>first_name\<close>.  For the dimension \<^verbatim>\<open>first_name\<close> line
  105 selects both columns and drops repeated rows, not repeated values: the call
  completes, the grammar file declares the two columns \<^verbatim>\<open>first_name_id,first_name\<close>, and
  the data file has three columns, in which the value \<^verbatim>\<open>Ada\<close> stands in both rows.
\<close>

theorem repeated_label_dimension_data:
  "write_dimensions_to_ingest_folder twin_df [''first_name''] ''ingest'' =
     ([Create_folder ''ingest/dimensions'',
       Write_file ''ingest/dimensions/first_name-dimension.grammar.csv''
         (Text (''PK,Index'' @ [newline] @ ''string,string'' @ [newline] @
                ''first_name_id,first_name'')),
       Write_file ''ingest/dimensions/first_name-dimension.data.csv''
         (Csv \<lparr>header = [''first_name_id'', ''first_name'', ''first_name''],
                rows = [[Int_cell 1, Val (Str ''Ada''), Val (Str ''Ada'')],
                        [Int_cell 2, Val (Str ''Ada''), Val (Str ''Bob'')]]\<rparr>)],
      None)"
  by (simp add: write_dimensions_to_ingest_folder_def twin_frame path_simps
      dimension_grammar_data_def to_csv_def frame_rows_def row_at_def nrows_def upt_conv_Cons)

text \<open>
  The input is reached through \<^verbatim>\<open>guess_metrics_and_columns\<close> and
  \<^verbatim>\<open>generate_ingest_files\<close>, which completes and returns the dimension \<^verbatim>\<open>first_name\<close>
  twice.
\<close>

lemma twin_guess:
  "guess_metrics_and_columns (example_os [''data.csv''] twin_raw) ''tmp'' ''t'' ''data.csv'' =
     Inr twin_metadata"
  by (simp add: guess_metrics_and_columns_def example_os_def twin_raw_def twin_metadata_def
      getitem_def)

lemma clean_twin:
  "clean_column_name ''First Name'' = ''first_name''"
  "clean_column_name ''first_name'' = ''first_name''"
  by code_simp+

lemma twin_format:
  "format_df_columns twin_raw twin_metadata =
     (twin_df, [(''First Name'', ''first_name''), (''first_name'', ''first_name'')])"
  by (simp add: format_df_columns_def rename_columns_def twin_raw_def twin_metadata_def
      twin_df_def clean_twin)

lemma twin_split:
  "split_columns [(''First Name'', ''first_name''), (''first_name'', ''first_name'')]
     twin_metadata [] [] = Inr ([], [''first_name'', ''first_name''])"
  by (simp add: twin_metadata_def)


lemma twin_dimensions:
  "write_dimensions_to_ingest_folder twin_df [''first_name'', ''first_name''] ''tmp/t/ingest'' =
     ([Create_folder ''tmp/t/ingest/dimensions'',
       Write_file ''tmp/t/ingest/dimensions/first_name-dimension.grammar.csv''
         (Text (dimension_grammar_data ''first_name'')),
       Write_file ''tmp/t/ingest/dimensions/first_name-dimension.data.csv''
         (Csv \<lparr>header = [''first_name_id'', ''first_name'', ''first_name''],
                rows = [[Int_cell 1, Val (Str ''Ada''), Val (Str ''Ada'')],
                        [Int_cell 2, Val (Str ''Ada''), Val (Str ''Bob'')]]\<rparr>),
       Write_file ''tmp/t/ingest/dimensions/first_name-dimension.grammar.csv''
         (Text (dimension_grammar_data ''first_name'')),
       Write_file ''tmp/t/ingest/dimensions/first_name-dimension.data.csv''
         (Csv \<lparr>header = [''first_name_id'', ''first_name'', ''first_name''],
                rows = [[Int_cell 1, Val (Str ''Ada''), Val (Str ''Ada'')],
                        [Int_cell 2, Val (Str ''Ada''), Val (Str ''Bob'')]]\<rparr>)],
      None)"
  by (simp add: write_dimensions_to_ingest_folder_def twin_frame path_simps
      to_csv_def frame_rows_def row_at_def nrows_def upt_conv_Cons)

lemma twin_generate:
  "snd (generate_ingest_files (example_os [''data.csv''] twin_raw) ''tmp'' ''t'' twin_metadata
          ''p'' ''desc'') =
     Inr [(''dimension'', [''first_name'', ''first_name'']), (''metrics'', [])] \<and>
   Write_file ''tmp/t/ingest/dimensions/first_name-dimension.data.csv''
     (Csv \<lparr>header = [''first_name_id'', ''first_name'', ''first_name''],
            rows = [[Int_cell 1, Val (Str ''Ada''), Val (Str ''Ada'')],
                    [Int_cell 2, Val (Str ''Ada''), Val (Str ''Bob'')]]\<rparr>)
     \<in> set (fst (generate_ingest_files (example_os [''data.csv''] twin_raw) ''tmp'' ''t''
                   twin_metadata ''p'' ''desc''))"
proof -
  have j: "os_path_join (os_path_join ''tmp'' [''t'']) [''ingest''] = ''tmp/t/ingest''"
    by (simp add: path_simps)
  have l: "listdir (example_os [''data.csv''] twin_raw) (os_path_join ''tmp'' [''t'']) =
      Inr [''data.csv'']"
    and r: "\<And>p. read_csv (example_os [''data.csv''] twin_raw) p = Inr twin_raw"
    by (simp_all add: example_os_def)
  have e: "endswith ''data.csv'' ''.csv''" by (simp add: endswith_def)
  have ev: "\<And>os. write_events_to_ingest_folder os twin_df [''first_name'', ''first_name''] []
        ''p'' ''tmp/t/ingest'' =
      ([Create_folder (os_path_join ''tmp/t/ingest'' [''programs'', ''p''])], None)"
    by (simp add: write_events_to_ingest_folder_def Let_def)
  show ?thesis
    unfolding generate_ingest_files_def Let_def l
    by (simp add: e r twin_format twin_split j twin_dimensions ev)
qed

section \<open>Event files\<close>

text \<open>
  Claim C2 at the failing input: the table has a dimension labelled \<^verbatim>\<open>date\<close> and the
  metric \<^verbatim>\<open>score\<close>.  \<^verbatim>\<open>write_events_to_ingest_folder\<close> creates the folder and writes the
  grammar file of the metric; inserting the column \<^verbatim>\<open>date\<close> then raises \<^verbatim>\<open>ValueError\<close>,
  and no data file is written.
\<close>

theorem date_column_breaks_events:
  "write_events_to_ingest_folder (example_os [''data.csv''] dated_df) dated_df
     [''date''] [''score''] ''p'' ''ingest'' =
     ([Create_folder ''ingest/programs/p'',
       Write_file ''ingest/programs/p/score-event.grammar.csv''
         (Text (event_grammar_data [''date''] ''score''))],
      Some (ValueError ''cannot insert date, already exists''))"
  by (simp add: write_events_to_ingest_folder_def dated_df_def path_simps event_frame_def
      insert_column_def as_values_def)

lemma column_of_unique: "has_column df h s \<Longrightarrow> column_of df h = s"
  by (simp add: has_column_def column_of_def)

lemma has_column_member: "has_column df h s \<Longrightarrow> s \<in> set df"
proof -
  assume "has_column df h s"
  then have "s \<in> set (filter (\<lambda>t. name t = h) df)" by (simp add: has_column_def)
  then show ?thesis by simp
qed

lemma getitem_list_columns:
  "list_all (\<lambda>h. \<exists>s. has_column df h s) headers \<Longrightarrow>
   getitem_list df headers = Inr (map (column_of df) headers)"
  by (induction headers) (auto simp: has_column_def column_of_def)

lemma selected_names:
  "list_all (\<lambda>h. \<exists>s. has_column df h s) headers \<Longrightarrow>
   map name (map (column_of df) headers) = headers"
  by (induction headers) (auto simp: column_of_unique has_column_name)

lemma selected_lengths:
  assumes "well_formed df" and "list_all (\<lambda>h. \<exists>s. has_column df h s) headers"
    and "h \<in> set headers"
  shows "length (cells (column_of df h)) = nrows df"
proof -
  from assms(2,3) obtain s where s: "has_column df h s" by (auto simp: list_all_iff)
  then have "s \<in> set df" by (rule has_column_member)
  then have "length (cells s) = nrows df" using assms(1) by (simp add: well_formed_def list_all_iff)
  then show ?thesis using column_of_unique[OF s] by simp
qed

lemma event_frame_csv:
  assumes wf: "well_formed df"
    and cols: "list_all (\<lambda>h. \<exists>s. has_column df h s) (dims @ [m])"
    and nodate: "''date'' \<notin> set (dims @ [m])"
  shows "\<exists>f. event_frame df dims m now = Inr f \<and>
     to_csv f = event_csv df dims m (strftime_dmy now)"
proof -
  let ?hs = "dims @ [m]"
  let ?sel = "map (column_of df) ?hs"
  let ?d = "Str_cell (strftime_dmy now)"
  let ?f = "\<lparr>name = ''date'', dtype = Object, cells = replicate (nrows df) ?d\<rparr> # as_values ?sel"
  have names: "map name (as_values ?sel) = ?hs"
    using selected_names[OF cols] by (simp add: as_values_def comp_def)
  have ef: "event_frame df dims m now = Inr ?f"
    using getitem_list_columns[OF cols] names nodate
    by (simp add: event_frame_def insert_column_def del: map_append)
  have n: "nrows ?f = nrows df" by (simp add: nrows_def)
  have row: "row_at ?f i = ?d # map (\<lambda>h. Val (cells (column_of df h) ! i)) ?hs"
    if "i < nrows df" for i
  proof -
    have "map (\<lambda>s. cells s ! i) (as_values ?sel) =
        map (\<lambda>h. Val (cells (column_of df h) ! i)) ?hs"
      using that selected_lengths[OF wf cols]
      by (simp add: as_values_def comp_def del: map_append)
    then show ?thesis using that by (simp add: row_at_def del: map_append)
  qed
  have "frame_rows ?f =
      map (\<lambda>i. ?d # map (\<lambda>h. Val (cells (column_of df h) ! i)) ?hs) [0..<nrows df]"
    unfolding frame_rows_def n using row by (intro map_cong) auto
  then have "to_csv ?f = event_csv df dims m (strftime_dmy now)"
    using names by (simp add: to_csv_def event_csv_def del: map_append)
  then show ?thesis using ef by blast
qed

lemma write_events_data:
  assumes wf: "well_formed df"
    and cols: "list_all (\<lambda>h. \<exists>s. has_column df h s) (dims @ metrics)"
    and nodate: "''date'' \<notin> set (dims @ metrics)"
  shows "snd (write_events os df dims base k metrics) = None \<and>
    (\<forall>j < length metrics.
       Write_file (os_path_join base [metrics ! j @ ''-event.data.csv''])
         (Csv (event_csv df dims (metrics ! j) (strftime_dmy (today os (k + j)))))
       \<in> set (fst (write_events os df dims base k metrics)))"
  using cols nodate
proof (induction metrics arbitrary: k)
  case Nil
  then show ?case by simp
next
  case (Cons m ms)
  have c1: "list_all (\<lambda>h. \<exists>s. has_column df h s) (dims @ [m])"
    and c2: "list_all (\<lambda>h. \<exists>s. has_column df h s) (dims @ ms)"
    using Cons.prems by auto
  have d1: "''date'' \<notin> set (dims @ [m])" and d2: "''date'' \<notin> set (dims @ ms)"
    using Cons.prems by auto
  from event_frame_csv[OF wf c1 d1, of "today os k"] obtain f where
    f: "event_frame df dims m (today os k) = Inr f"
    and csv: "to_csv f = event_csv df dims m (strftime_dmy (today os k))"
    by blast
  note ih = Cons.IH[OF c2 d2, of "Suc k"]
  have ok: "snd (write_events os df dims base k (m # ms)) = None"
    using f ih by (simp add: Let_def case_prod_beta)
  have mem: "Write_file (os_path_join base [(m # ms) ! j @ ''-event.data.csv''])
         (Csv (event_csv df dims ((m # ms) ! j) (strftime_dmy (today os (k + j)))))
       \<in> set (fst (write_events os df dims base k (m # ms)))"
    if j: "j < length (m # ms)" for j
  proof (cases j)
    case 0
    then show ?thesis using f csv by (simp add: Let_def case_prod_beta)
  next
    case (Suc j')
    then have "j' < length ms" using j by simp
    with ih have "Write_file (os_path_join base [ms ! j' @ ''-event.data.csv''])
         (Csv (event_csv df dims (ms ! j') (strftime_dmy (today os (Suc k + j')))))
       \<in> set (fst (write_events os df dims base (Suc k) ms))"
      by blast
    then show ?thesis using Suc f by (simp add: Let_def case_prod_beta)
  qed
  show ?case using ok mem by blast
qed

text \<open>
  When the table is well formed, every dimension and metric names exactly one column
  and none of them is labelled \<^verbatim>\<open>date\<close>, the call completes and writes, for the j-th
  metric, the event data of the specification with the date of the j-th reading of the
  clock.
\<close>

lemma event_data_files:
  assumes "well_formed df"
    and "list_all (\<lambda>h. \<exists>s. has_column df h s) (dimensions @ metrics)"
    and "''date'' \<notin> set (dimensions @ metrics)"
  shows "snd (write_events_to_ingest_folder os df dimensions metrics program_name
              ingest_folder_path) = None \<and>
    (\<forall>j < length metrics.
       Write_file (event_data_path ingest_folder_path program_name (metrics ! j))
         (Csv (event_csv df dimensions (metrics ! j) (strftime_dmy (today os j))))
       \<in> set (fst (write_events_to_ingest_folder os df dimensions metrics program_name
                     ingest_folder_path)))"
  using write_events_data[OF assms, of os
      "os_path_join ingest_folder_path [''programs'', program_name]" 0]
  by (simp add: write_events_to_ingest_folder_def event_data_path_def Let_def
      case_prod_beta)

lemma scenario_events:
  "write_events_to_ingest_folder (example_os [] scenario_df) scenario_df [''name'']
     [''score''] ''p'' ''ingest'' =
    ([Create_folder ''ingest/programs/p'',
      Write_file ''ingest/programs/p/score-event.grammar.csv''
        (Text (event_grammar_data [''name''] ''score'')),
      Write_file ''ingest/programs/p/score-event.data.csv''
        (Csv \<lparr>header = [''date'', ''name'', ''score''],
               rows = [[Str_cell (strftime_dmy \<lparr>year = 2026, month = 11, day = 4\<rparr>),
                        Val (Str ''Ada''), Val (Integer 10)],
                       [Str_cell (strftime_dmy \<lparr>year = 2026, month = 11, day = 4\<rparr>),
                        Val (Str ''Grace''), Val (Integer 10)],
                       [Str_cell (strftime_dmy \<lparr>year = 2026, month = 11, day = 4\<rparr>),
                        Val (Str ''Ada''), Val (Integer 7)]]\<rparr>)],
     None)"
  by (simp add: write_events_to_ingest_folder_def scenario_df_def example_os_def path_simps
      event_frame_def insert_column_def as_values_def nrows_def to_csv_def frame_rows_def
      row_at_def upt_conv_Cons)

lemma strftime_example: "strftime_dmy \<lparr>year = 2026, month = 11, day = 4\<rparr> = ''04/11/26''"
  by code_simp

text \<open>
  The same failure through \<^verbatim>\<open>generate_ingest_files\<close>: a file with the header
  \<^verbatim>\<open>Date,Score\<close> is classified, normalized to the labels \<^verbatim>\<open>date\<close> and \<^verbatim>\<open>score\<close>, its
  dimension files are written, and the run ends with the \<^verbatim>\<open>ValueError\<close>.
\<close>

lemma clean_date: "clean_column_name ''Date'' = ''date''" "clean_column_name ''Score'' = ''score''"
  by code_simp+

lemma dated_format:
  "format_df_columns dated_raw dated_metadata =
     (dated_df, [(''Date'', ''date''), (''Score'', ''score'')])"
  by (simp add: format_df_columns_def rename_columns_def dated_raw_def dated_metadata_def
      dated_df_def clean_date)

lemma dated_split:
  "split_columns [(''Date'', ''date''), (''Score'', ''score'')] dated_metadata [] [] =
     Inr ([''score''], [''date''])"
  by (simp add: dated_metadata_def)

lemma dated_dimensions:
  "snd (write_dimensions_to_ingest_folder dated_df [''date''] ''tmp/t/ingest'') = None"
  by (simp add: write_dimensions_to_ingest_folder_def dated_df_def dimension_frame_def
      getitem_def insert_column_def as_values_def case_prod_beta Let_def)

lemma dated_events:
  "snd (write_events_to_ingest_folder os dated_df [''date''] [''score''] ''p'' ''tmp/t/ingest'')
     = Some (ValueError ''cannot insert date, already exists'')"
  by (simp add: write_events_to_ingest_folder_def dated_df_def event_frame_def
      insert_column_def as_values_def case_prod_beta Let_def)

lemma dated_guess:
  "guess_metrics_and_columns (example_os [''data.csv''] dated_raw) ''tmp'' ''t'' ''data.csv'' =
     Inr dated_metadata"
  by (simp add: guess_metrics_and_columns_def example_os_def dated_raw_def dated_metadata_def
      getitem_def)


lemma dated_generate:
  "snd (generate_ingest_files (example_os [''data.csv''] dated_raw) ''tmp'' ''t'' dated_metadata
          ''p'' ''desc'') = Inl (ValueError ''cannot insert date, already exists'')"
proof -
  have j: "os_path_join (os_path_join ''tmp'' [''t'']) [''ingest''] = ''tmp/t/ingest''"
    by (simp add: path_simps)
  have l: "listdir (example_os [''data.csv''] dated_raw) (os_path_join ''tmp'' [''t'']) =
      Inr [''data.csv'']"
    and r: "\<And>p. read_csv (example_os [''data.csv''] dated_raw) p = Inr dated_raw"
    by (simp_all add: example_os_def)
  have e: "endswith ''data.csv'' ''.csv''" by (simp add: endswith_def)
  show ?thesis
    unfolding generate_ingest_files_def Let_def l
    by (simp add: e r dated_format dated_split j dated_dimensions dated_events case_prod_beta)
qed

text \<open>
  A run of \<^verbatim>\<open>generate_ingest_files\<close> that completes ends by writing the manifest, whose
  document depends on the program name and description alone.
\<close>

lemma generate_writes_manifest:
  "generate_ingest_files os tmp_base_path token column_metadata program_name program_desc =
     (effects, Inr result) \<Longrightarrow>
   last effects =
     Write_file
       (os_path_join (os_path_join (os_path_join tmp_base_path [token]) [''ingest''])
          [''config.json''])
       (Json (config_template program_name program_desc))"
  by (auto simp: generate_ingest_files_def Let_def write_config_to_ingest_folder_def
      split: sum.splits list.splits prod.splits option.splits)

end
